theory Spec2Isabelle
  imports Complex_Main
begin

section \<open>AssetMonitor: the batch prediction pipeline of app.py\<close>

text \<open>
  The service of \<^verbatim>\<open>src/app.py\<close> receives a JSON array of sensor readings, runs five
  models on every reading, aggregates the predictions over the batch, computes the mode of
  the raw features and derives a health report from the modes.

  Conventions of the embedding.
  \<^item> A Python \<^verbatim>\<open>float\<close> is a \<^typ>\<open>real\<close>, the number the double stands for; the
    infinities and NaN are not modelled. The one NaN the code can produce from finite
    values, \<^verbatim>\<open>np.mean([])\<close>, is a value of its own.
  \<^item> The sum and the quotient of two floats are rounded to a double. The rounding is the
    field \<open>float_round\<close> of the record \<open>env\<close>, and nothing is assumed of it: the averages
    of the health analyzer are \<open>float_round\<close> of the exact results, which need not be the
    exact results. \<^verbatim>\<open>np.mean\<close> is the exact mean.
  \<^item> A JSON number without fraction and exponent is parsed to a Python \<^verbatim>\<open>int\<close>, any
    other number to a \<^verbatim>\<open>float\<close>.
  \<^item> A raised exception is the \<open>Inl\<close> of a sum; a returned value is the \<open>Inr\<close>.
  \<^item> A dictionary that is only read by key is a map; one that is iterated is an
    association list in insertion order.
  \<^item> What the code takes from outside the repository (the pickled models, Python's
    \<^verbatim>\<open>float\<close> on a string and on an int, \<^verbatim>\<open>str\<close> on a float, the rounding of float
    arithmetic) is a field of the record \<open>env\<close>; the
    clock and the completion order of the worker pool are parameters of the functions
    that use them.
\<close>

subsection \<open>Values and exceptions\<close>

text \<open>
  What \<^verbatim>\<open>request.get_json()\<close> returns: a parsed JSON document. \<open>JInt\<close> is a number
  parsed to an \<^verbatim>\<open>int\<close>, \<open>JNum\<close> a number parsed to a \<^verbatim>\<open>float\<close>.
\<close>

datatype json =
    JNull
  | JBool bool
  | JInt int
  | JNum real
  | JStr string
  | JArr "json list"
  | JObj "(string \<times> json) list"

text \<open>
  The exceptions the pipeline can meet. \<open>KeyError\<close> carries the missing key;
  \<open>Other_exception\<close> stands for any class that is neither of the five named ones
  (a model may raise anything).
\<close>

datatype exc =
    KeyError string
  | ValueError
  | TypeError
  | IndexError
  | OverflowError
  | Other_exception string

subsection \<open>The model registry\<close>

definition model_names :: "string list" where
  "model_names =
     [''temperature_model'', ''vibration_model'', ''magnetic_flux_model'',
      ''audible_sound_model'', ''ultra_sound_model'']"

definition feature_sets :: "(string \<times> string list) list" where
  "feature_sets =
     [(''temperature_model'', [''temperature_one'', ''temperature_two'']),
      (''vibration_model'', [''vibration_x'', ''vibration_y'', ''vibration_z'']),
      (''magnetic_flux_model'', [''magnetic_flux_x'', ''magnetic_flux_y'', ''magnetic_flux_z'']),
      (''audible_sound_model'', [''vibration_x'', ''vibration_y'', ''vibration_z'', ''audible_sound'']),
      (''ultra_sound_model'', [''vibration_x'', ''vibration_y'', ''vibration_z'', ''ultra_sound''])]"

text \<open>
  What one call \<^verbatim>\<open>model.predict([X_input])[0]\<close> does: it raises, or it returns a numpy
  number (\<^verbatim>\<open>np.integer\<close> or \<^verbatim>\<open>np.floating\<close>), or it returns any other object, kept as the
  text \<^verbatim>\<open>str\<close> gives for it.
\<close>

datatype model_output = Np_number real | Object string

datatype model_call = Returns model_output | Raises exc

text \<open>
  The collaborators from outside the repository:
  \<^item> \<open>float_of_str s\<close> is Python's \<^verbatim>\<open>float(s)\<close> on a string, \<open>None\<close> when it raises
    \<open>ValueError\<close>;
  \<^item> \<open>float_of_int n\<close> is Python's \<^verbatim>\<open>float(n)\<close> on an int, the nearest double, \<open>None\<close>
    when it raises \<open>OverflowError\<close>;
  \<^item> \<open>float_round x\<close> is the double that an operation on floats returns when its exact
    result is \<open>x\<close>;
  \<^item> \<open>str_of_float x\<close> is Python's \<^verbatim>\<open>str(x)\<close> on a float;
  \<^item> \<open>model_predict name X\<close> is \<^verbatim>\<open>models[name].predict([X])[0]\<close>, a function of the
    input vector (the models are deterministic and never modified).
\<close>

record env =
  float_of_str :: "string \<Rightarrow> real option"
  float_of_int :: "int \<Rightarrow> real option"
  float_round :: "real \<Rightarrow> real"
  str_of_float :: "real \<Rightarrow> string"
  model_predict :: "string \<Rightarrow> real list \<Rightarrow> model_call"

subsection \<open>Health analysis\<close>

fun evaluate_machine_condition :: "real \<Rightarrow> real \<Rightarrow> string" where
  "evaluate_machine_condition temperature vibration =
     (if temperature < 80 \<and> vibration < 1.8 then ''Safe Condition''
      else if temperature < 100 \<and> vibration < 2.8 then ''Maintain Condition''
      else ''Repair Condition'')"

fun detect_temperature_anomaly :: "real \<Rightarrow> string" where
  "detect_temperature_anomaly temperature =
     (if temperature < 80 then ''No significant temperature anomaly detected''
      else if 80 \<le> temperature \<and> temperature < 100 then
        ''Moderate Overheating - Check Lubrication''
      else if 100 \<le> temperature \<and> temperature < 120 then
        ''Significant Overheating - Possible Misalignment or Bearing Wear''
      else ''Critical Overheating - Immediate Repair Needed'')"

fun detect_vibration_anomaly :: "real \<Rightarrow> string" where
  "detect_vibration_anomaly vibration =
     (if vibration < 1.8 then ''No significant vibration anomaly detected''
      else if 1.8 \<le> vibration \<and> vibration < 2.8 then ''Unbalance Fault''
      else if 2.8 \<le> vibration \<and> vibration < 4.5 then ''Misalignment Fault''
      else if 4.5 \<le> vibration \<and> vibration < 7.1 then ''Looseness Fault''
      else ''Bearing Fault or Gear Mesh Fault'')"

record health_report =
  machine_condition :: string
  temperature_analysis :: string
  vibration_analysis :: string
  timestamp :: string
  overall_health :: string

text \<open>
  \<^verbatim>\<open>input_data[key]\<close> on a dictionary of floats (the modes): a missing key raises
  \<open>KeyError\<close>; \<^verbatim>\<open>float\<close> of a float is the float itself.
\<close>

definition mode_item :: "(string \<rightharpoonup> real) \<Rightarrow> string \<Rightarrow> exc + real" where
  "mode_item input_data key =
     (case input_data key of None \<Rightarrow> Inl (KeyError key) | Some v \<Rightarrow> Inr v)"

text \<open>
  \<open>analyze_health\<close> reads the five features in the order of the source's two sums;
  \<open>now\<close> is what \<^verbatim>\<open>datetime.now().isoformat()\<close> gives at the call. Every \<^verbatim>\<open>+\<close> and
  every \<^verbatim>\<open>/\<close> of the two averages returns a double: the exact result, rounded.
\<close>

definition analyze_health ::
  "env \<Rightarrow> string \<Rightarrow> (string \<rightharpoonup> real) \<Rightarrow> exc + health_report" where
  "analyze_health env now input_data =
     (case mode_item input_data ''temperature_one'' of Inl e \<Rightarrow> Inl e | Inr t1 \<Rightarrow>
     (case mode_item input_data ''temperature_two'' of Inl e \<Rightarrow> Inl e | Inr t2 \<Rightarrow>
     (case mode_item input_data ''vibration_x'' of Inl e \<Rightarrow> Inl e | Inr vx \<Rightarrow>
     (case mode_item input_data ''vibration_y'' of Inl e \<Rightarrow> Inl e | Inr vy \<Rightarrow>
     (case mode_item input_data ''vibration_z'' of Inl e \<Rightarrow> Inl e | Inr vz \<Rightarrow>
        (let avg_temp = float_round env (float_round env (t1 + t2) / 2);
             avg_vibration =
               float_round env (float_round env (float_round env (vx + vy) + vz) / 3);
             condition = evaluate_machine_condition avg_temp avg_vibration;
             overall = (if condition = ''Safe Condition'' then ''Healthy'' else ''Unhealthy'')
         in Inr \<lparr> machine_condition = condition,
                  temperature_analysis = detect_temperature_anomaly avg_temp,
                  vibration_analysis = detect_vibration_anomaly avg_vibration,
                  timestamp = now,
                  overall_health = overall \<rparr>))))))"

subsection \<open>Reading the features of one reading\<close>

text \<open>
  \<^verbatim>\<open>input_data[feature]\<close>: a dictionary without the key raises \<open>KeyError\<close>; any other
  JSON value subscripted with a string raises \<open>TypeError\<close>.
\<close>

fun subscript :: "json \<Rightarrow> string \<Rightarrow> exc + json" where
  "subscript (JObj items) key =
     (case map_of items key of None \<Rightarrow> Inl (KeyError key) | Some v \<Rightarrow> Inr v)"
| "subscript JNull key = Inl TypeError"
| "subscript (JBool b) key = Inl TypeError"
| "subscript (JInt n) key = Inl TypeError"
| "subscript (JNum x) key = Inl TypeError"
| "subscript (JStr s) key = Inl TypeError"
| "subscript (JArr xs) key = Inl TypeError"

text \<open>
  \<^verbatim>\<open>float(v)\<close>: a float is itself, an int is converted or raises \<open>OverflowError\<close>, a
  boolean is 1.0 or 0.0, a string is parsed, \<^verbatim>\<open>None\<close>, a list and a dictionary raise
  \<open>TypeError\<close>.
\<close>

fun py_float :: "env \<Rightarrow> json \<Rightarrow> exc + real" where
  "py_float env (JNum x) = Inr x"
| "py_float env (JInt n) =
     (case float_of_int env n of None \<Rightarrow> Inl OverflowError | Some x \<Rightarrow> Inr x)"
| "py_float env (JBool b) = Inr (if b then 1 else 0)"
| "py_float env (JStr s) =
     (case float_of_str env s of None \<Rightarrow> Inl ValueError | Some x \<Rightarrow> Inr x)"
| "py_float env JNull = Inl TypeError"
| "py_float env (JArr xs) = Inl TypeError"
| "py_float env (JObj items) = Inl TypeError"

definition float_item :: "env \<Rightarrow> json \<Rightarrow> string \<Rightarrow> exc + real" where
  "float_item env input_data key =
     (case subscript input_data key of Inl e \<Rightarrow> Inl e | Inr v \<Rightarrow> py_float env v)"

text \<open>\<^verbatim>\<open>[float(input_data[feature]) for feature in features]\<close>, left to right.\<close>

fun feature_vector :: "env \<Rightarrow> json \<Rightarrow> string list \<Rightarrow> exc + real list" where
  "feature_vector env input_data [] = Inr []"
| "feature_vector env input_data (feature # features) =
     (case float_item env input_data feature of Inl e \<Rightarrow> Inl e | Inr x \<Rightarrow>
     (case feature_vector env input_data features of Inl e \<Rightarrow> Inl e | Inr xs \<Rightarrow>
        Inr (x # xs)))"

subsection \<open>The single-reading predictor\<close>

text \<open>\<^verbatim>\<open>model_name.replace('_model', '')\<close>: every occurrence is removed, left to right.\<close>

function strip_model :: "string \<Rightarrow> string" where
  "strip_model [] = []"
| "strip_model (c # cs) =
     (if take 6 (c # cs) = ''_model'' then strip_model (drop 6 (c # cs))
      else c # strip_model cs)"
  by pat_completeness auto
termination
  by (relation "measure length") auto

datatype prediction = Num real | Str string

text \<open>
  The dictionary \<open>predict_single_model\<close> returns has one entry:
  \<open>Prediction key p\<close> is \<^verbatim>\<open>{key: p}\<close>, and \<open>Invalid_input name e\<close> is
  \<^verbatim>\<open>{"error": f"Invalid input for {name}: {str(e)}"}\<close>.
\<close>

datatype single_result = Prediction string prediction | Invalid_input string exc

text \<open>The body of the \<^verbatim>\<open>try\<close> block.\<close>

definition try_predict :: "env \<Rightarrow> string \<Rightarrow> string list \<Rightarrow> json \<Rightarrow> exc + single_result" where
  "try_predict env model_name features input_data =
     (case feature_vector env input_data features of Inl e \<Rightarrow> Inl e | Inr X_input \<Rightarrow>
     (case model_predict env model_name X_input of
        Raises e \<Rightarrow> Inl e
      | Returns (Np_number x) \<Rightarrow> Inr (Prediction (strip_model model_name) (Num x))
      | Returns (Object s) \<Rightarrow> Inr (Prediction (strip_model model_name) (Str s))))"

text \<open>
  \<^verbatim>\<open>feature_sets[model_name]\<close> stands before the \<^verbatim>\<open>try\<close>; the handler is
  \<^verbatim>\<open>except (ValueError, TypeError)\<close>, every other exception leaves the function.
\<close>

definition predict_single_model :: "env \<Rightarrow> string \<Rightarrow> json \<Rightarrow> exc + single_result" where
  "predict_single_model env model_name input_data =
     (case map_of feature_sets model_name of
        None \<Rightarrow> Inl (KeyError model_name)
      | Some features \<Rightarrow>
         (case try_predict env model_name features input_data of
            Inr result \<Rightarrow> Inr result
          | Inl e \<Rightarrow>
              if e = ValueError \<or> e = TypeError then Inr (Invalid_input model_name e)
              else Inl e))"

subsection \<open>Counter and most_common\<close>

text \<open>
  \<^verbatim>\<open>collections.Counter(values)\<close>: the distinct values in the order they are first
  seen, each with the number of its occurrences.
\<close>

fun counter_add :: "'a \<Rightarrow> ('a \<times> nat) list \<Rightarrow> ('a \<times> nat) list" where
  "counter_add x [] = [(x, 1)]"
| "counter_add x ((k, n) # rest) =
     (if k = x then (k, Suc n) # rest else (k, n) # counter_add x rest)"

definition Counter :: "'a list \<Rightarrow> ('a \<times> nat) list" where
  "Counter values = fold counter_add values []"

text \<open>
  \<^verbatim>\<open>most_common(1)\<close> is \<^verbatim>\<open>max\<close> over the items by their count, and \<^verbatim>\<open>max\<close> keeps the
  first of several maximal items: a later item replaces the best one only when its count
  is strictly greater.
\<close>

fun max_by_count :: "'a \<times> nat \<Rightarrow> ('a \<times> nat) list \<Rightarrow> 'a \<times> nat" where
  "max_by_count best [] = best"
| "max_by_count best (item # items) =
     max_by_count (if snd best < snd item then item else best) items"

definition most_common_1 :: "('a \<times> nat) list \<Rightarrow> ('a \<times> nat) list" where
  "most_common_1 counter =
     (case counter of [] \<Rightarrow> [] | item # items \<Rightarrow> [max_by_count item items])"

text \<open>\<^verbatim>\<open>Counter(values).most_common(1)[0][0]\<close>; \<^verbatim>\<open>[0]\<close> of an empty list raises.\<close>

definition most_common_value :: "'a list \<Rightarrow> exc + 'a" where
  "most_common_value values =
     (case most_common_1 (Counter values) of
        [] \<Rightarrow> Inl IndexError
      | item # items \<Rightarrow> Inr (fst item))"

subsection \<open>Aggregating the predictions of a batch\<close>

text \<open>The predictions of one reading: \<^verbatim>\<open>{key: prediction}\<close> for each model.\<close>

type_synonym predictions = "string \<rightharpoonup> prediction"

text \<open>\<^verbatim>\<open>np.mean\<close> of a list of floats; of the empty list it is NaN.\<close>

datatype np_float = Finite real | NaN

definition np_mean :: "real list \<Rightarrow> np_float" where
  "np_mean xs = (if xs = [] then NaN else Finite (sum_list xs / real (length xs)))"

text \<open>An aggregated value is a float (the mean) or a string.\<close>

datatype aggregate = Average np_float | Most_common string

text \<open>\<^verbatim>\<open>isinstance(x, (int, float))\<close> on a prediction, and the numbers of a list.\<close>

fun is_number :: "prediction \<Rightarrow> bool" where
  "is_number (Num x) = True"
| "is_number (Str s) = False"

fun numbers :: "prediction list \<Rightarrow> real list" where
  "numbers [] = []"
| "numbers (Num x # ps) = x # numbers ps"
| "numbers (Str s # ps) = numbers ps"

fun py_str :: "env \<Rightarrow> prediction \<Rightarrow> string" where
  "py_str env (Num x) = str_of_float env x"
| "py_str env (Str s) = s"

text \<open>\<^verbatim>\<open>[pred[key] for pred in predictions_list]\<close>.\<close>

fun model_predictions :: "string \<Rightarrow> predictions list \<Rightarrow> exc + prediction list" where
  "model_predictions key [] = Inr []"
| "model_predictions key (pred # predictions_list) =
     (case pred key of None \<Rightarrow> Inl (KeyError key) | Some p \<Rightarrow>
     (case model_predictions key predictions_list of Inl e \<Rightarrow> Inl e | Inr ps \<Rightarrow>
        Inr (p # ps)))"

text \<open>The two branches of the loop body, on the predictions of one model.\<close>

definition aggregate_values :: "env \<Rightarrow> prediction list \<Rightarrow> exc + aggregate" where
  "aggregate_values env ps =
     (if list_all is_number ps then Inr (Average (np_mean (numbers ps)))
      else (case most_common_value ps of Inl e \<Rightarrow> Inl e | Inr most_common \<Rightarrow>
              Inr (Most_common (py_str env most_common))))"

text \<open>The loop \<^verbatim>\<open>for model_name in model_names\<close>, with the dictionary built so far.\<close>

fun aggregate_loop ::
  "env \<Rightarrow> predictions list \<Rightarrow> string list \<Rightarrow> (string \<rightharpoonup> aggregate) \<Rightarrow>
   exc + (string \<rightharpoonup> aggregate)" where
  "aggregate_loop env predictions_list [] aggregated = Inr aggregated"
| "aggregate_loop env predictions_list (model_name # names) aggregated =
     (case model_predictions (strip_model model_name) predictions_list of
        Inl e \<Rightarrow> Inl e
      | Inr ps \<Rightarrow>
         (case aggregate_values env ps of
            Inl e \<Rightarrow> Inl e
          | Inr a \<Rightarrow>
              aggregate_loop env predictions_list names
                (aggregated(strip_model model_name \<mapsto> a))))"

definition aggregate_predictions ::
  "env \<Rightarrow> predictions list \<Rightarrow> exc + (string \<rightharpoonup> aggregate)" where
  "aggregate_predictions env predictions_list =
     aggregate_loop env predictions_list model_names Map.empty"

subsection \<open>The modes of the raw features\<close>

text \<open>
  The keys of \<open>all_values\<close>, as the source computes them:
  \<^verbatim>\<open>feature_sets['audible_sound_model'][3:]\<close> is the list without its first three
  elements.
\<close>

definition mode_keys :: "string list" where
  "mode_keys =
     the (map_of feature_sets ''temperature_model'') @
     the (map_of feature_sets ''vibration_model'') @
     the (map_of feature_sets ''magnetic_flux_model'') @
     drop 3 (the (map_of feature_sets ''audible_sound_model''))"

text \<open>
  The inner loop \<^verbatim>\<open>for key in all_values.keys()\<close> appends the float of one reading to
  the list of every key, in the order of the keys.
\<close>

fun append_values ::
  "env \<Rightarrow> json \<Rightarrow> (string \<times> real list) list \<Rightarrow> exc + (string \<times> real list) list" where
  "append_values env input_data [] = Inr []"
| "append_values env input_data ((key, values) # rest) =
     (case float_item env input_data key of Inl e \<Rightarrow> Inl e | Inr x \<Rightarrow>
     (case append_values env input_data rest of Inl e \<Rightarrow> Inl e | Inr rest' \<Rightarrow>
        Inr ((key, values @ [x]) # rest')))"

text \<open>The outer loop \<^verbatim>\<open>for input_data in input_data_array\<close>.\<close>

fun collect_values ::
  "env \<Rightarrow> json list \<Rightarrow> (string \<times> real list) list \<Rightarrow> exc + (string \<times> real list) list" where
  "collect_values env [] all_values = Inr all_values"
| "collect_values env (input_data # rest) all_values =
     (case append_values env input_data all_values of
        Inl e \<Rightarrow> Inl e
      | Inr all_values' \<Rightarrow> collect_values env rest all_values')"

text \<open>The loop \<^verbatim>\<open>for key, values in all_values.items()\<close>.\<close>

fun mode_loop ::
  "(string \<times> real list) list \<Rightarrow> (string \<rightharpoonup> real) \<Rightarrow> exc + (string \<rightharpoonup> real)" where
  "mode_loop [] mode_values = Inr mode_values"
| "mode_loop ((key, values) # rest) mode_values =
     (case most_common_value values of
        Inl e \<Rightarrow> Inl e
      | Inr m \<Rightarrow> mode_loop rest (mode_values(key \<mapsto> m)))"

definition calculate_modes :: "env \<Rightarrow> json list \<Rightarrow> exc + (string \<rightharpoonup> real)" where
  "calculate_modes env input_data_array =
     (case collect_values env input_data_array (map (\<lambda>key. (key, [])) mode_keys) of
        Inl e \<Rightarrow> Inl e
      | Inr all_values \<Rightarrow> mode_loop all_values Map.empty)"

subsection \<open>The pipeline\<close>

record full_result =
  predictions :: "string \<rightharpoonup> aggregate"
  modes :: "string \<rightharpoonup> real"
  Analysis_summary :: health_report

text \<open>
  \<open>predict_from_models\<close> returns either the error dictionary of one invocation or the
  dictionary of the three results.
\<close>

datatype response = Error_result single_result | Full_result full_result

text \<open>
  The loop \<^verbatim>\<open>for future in as_completed(futures)\<close> for one reading. One future was
  submitted for every model; \<open>completed\<close> lists the models in the order in which their
  futures complete. \<^verbatim>\<open>future.result()\<close> raises what the invocation raised;
  \<^verbatim>\<open>"error" in result\<close> holds for the error dictionary, and for a prediction stored
  under the key \<^verbatim>\<open>error\<close>.
\<close>

fun collect_results ::
  "env \<Rightarrow> json \<Rightarrow> string list \<Rightarrow> predictions \<Rightarrow> exc + (single_result + predictions)" where
  "collect_results env input_data [] preds = Inr (Inr preds)"
| "collect_results env input_data (model_name # completed) preds =
     (case predict_single_model env model_name input_data of
        Inl e \<Rightarrow> Inl e
      | Inr (Invalid_input name e) \<Rightarrow> Inr (Inl (Invalid_input name e))
      | Inr (Prediction key p) \<Rightarrow>
          if key = ''error'' then Inr (Inl (Prediction key p))
          else collect_results env input_data completed (preds(key \<mapsto> p)))"

text \<open>
  The loop over the readings. \<open>completion i\<close> is the order in which the futures of
  reading number \<open>i\<close> complete; the worker pool decides it.
\<close>

fun fan_out ::
  "env \<Rightarrow> (nat \<Rightarrow> string list) \<Rightarrow> nat \<Rightarrow> json list \<Rightarrow> predictions list \<Rightarrow>
   exc + (single_result + predictions list)" where
  "fan_out env completion i [] all_predictions = Inr (Inr all_predictions)"
| "fan_out env completion i (input_data # rest) all_predictions =
     (case collect_results env input_data (completion i) Map.empty of
        Inl e \<Rightarrow> Inl e
      | Inr (Inl result) \<Rightarrow> Inr (Inl result)
      | Inr (Inr preds) \<Rightarrow>
          fan_out env completion (Suc i) rest (all_predictions @ [preds]))"

text \<open>
  \<^verbatim>\<open>as_completed\<close> yields every submitted future once: a completion order is a
  rearrangement of \<open>model_names\<close>.
\<close>

definition valid_completion :: "(nat \<Rightarrow> string list) \<Rightarrow> bool" where
  "valid_completion completion =
     (\<forall>i. distinct (completion i) \<and> set (completion i) = set model_names)"

definition predict_from_models ::
  "env \<Rightarrow> (nat \<Rightarrow> string list) \<Rightarrow> string \<Rightarrow> json list \<Rightarrow> exc + response" where
  "predict_from_models env completion now input_data_array =
     (case fan_out env completion 0 input_data_array [] of
        Inl e \<Rightarrow> Inl e
      | Inr (Inl result) \<Rightarrow> Inr (Error_result result)
      | Inr (Inr all_predictions) \<Rightarrow>
     (case aggregate_predictions env all_predictions of Inl e \<Rightarrow> Inl e
      | Inr aggregated_predictions \<Rightarrow>
     (case calculate_modes env input_data_array of Inl e \<Rightarrow> Inl e
      | Inr modes' \<Rightarrow>
     (case analyze_health env now modes' of Inl e \<Rightarrow> Inl e
      | Inr analysis_summary \<Rightarrow>
          Inr (Full_result \<lparr> predictions = aggregated_predictions,
                             modes = modes',
                             Analysis_summary = analysis_summary \<rparr>)))))"

subsection \<open>The route /predict\<close>

text \<open>
  The body of the HTTP response: \<open>Error_message m\<close> is \<^verbatim>\<open>{"error": m}\<close> of the three
  checks, \<open>Result r\<close> is \<^verbatim>\<open>jsonify(result)\<close>, and \<open>Exception_message e\<close> is
  \<^verbatim>\<open>{"error": str(e)}\<close> of the handler \<^verbatim>\<open>except Exception\<close>.
\<close>

datatype body = Error_message string | Result response | Exception_message exc

fun predict ::
  "env \<Rightarrow> (nat \<Rightarrow> string list) \<Rightarrow> string \<Rightarrow> json \<Rightarrow> body \<times> nat" where
  "predict env completion now (JArr input_data_array) =
     (if length input_data_array > 1800 then
        (Error_message ''Input array exceeds maximum length of 1800'', 400)
      else if length input_data_array = 0 then
        (Error_message ''Input array cannot be empty'', 400)
      else
        (case predict_from_models env completion now input_data_array of
           Inr result \<Rightarrow> (Result result, 200)
         | Inl e \<Rightarrow> (Exception_message e, 500)))"
| "predict env completion now JNull = (Error_message ''Input must be an array'', 400)"
| "predict env completion now (JBool b) = (Error_message ''Input must be an array'', 400)"
| "predict env completion now (JInt n) = (Error_message ''Input must be an array'', 400)"
| "predict env completion now (JNum x) = (Error_message ''Input must be an array'', 400)"
| "predict env completion now (JStr s) = (Error_message ''Input must be an array'', 400)"
| "predict env completion now (JObj items) = (Error_message ''Input must be an array'', 400)"

subsection \<open>The mode of a collection, in the words of the specification\<close>

text \<open>
  The glossary of the specification: the mode is the most frequently occurring value of a
  collection, ties broken by first occurrence. \<open>first_most_frequent xs m\<close> says that \<open>m\<close>
  occurs in \<open>xs\<close>, that no value of \<open>xs\<close> occurs more often, and that every value standing
  before the first occurrence of \<open>m\<close> occurs strictly less often.
\<close>

definition first_most_frequent :: "'a list \<Rightarrow> 'a \<Rightarrow> bool" where
  "first_most_frequent xs m \<longleftrightarrow>
     m \<in> set xs \<and>
     list_all (\<lambda>y. count_list xs y \<le> count_list xs m) xs \<and>
     list_all (\<lambda>y. count_list xs y < count_list xs m) (takeWhile (\<lambda>y. y \<noteq> m) xs)"

text \<open>
  The raw features of the mode extractor in the words of the specification: the
  temperature pair, the three vibration axes, the three magnetic-flux axes, and the
  audible-sound and ultra-sound features.
\<close>

definition raw_features :: "string list" where
  "raw_features =
     [''temperature_one'', ''temperature_two'',
      ''vibration_x'', ''vibration_y'', ''vibration_z'',
      ''magnetic_flux_x'', ''magnetic_flux_y'', ''magnetic_flux_z'',
      ''audible_sound'', ''ultra_sound'']"

text \<open>
  The categorical aggregate in the words of the specification: every value is coerced to
  its string representation, and the aggregate is the most frequent of these strings,
  ties broken by first-seen order.
\<close>

definition coerced_most_common :: "env \<Rightarrow> prediction list \<Rightarrow> exc + string" where
  "coerced_most_common env ps = most_common_value (map (py_str env) ps)"

subsection \<open>Example inputs\<close>

text \<open>The modes of the end-to-end example of the specification.\<close>

definition example_modes :: "string \<rightharpoonup> real" where
  "example_modes =
     map_of [(''temperature_one'', 60), (''temperature_two'', 70),
             (''vibration_x'', 0.5), (''vibration_y'', 0.5), (''vibration_z'', 0.5)]"

text \<open>
  An environment for the examples: the only string \<^verbatim>\<open>float\<close> parses is \<^verbatim>\<open>"0.5"\<close>, every
  model returns the sum of its input vector as a numpy number, and three fields are
  stand-ins that agree with Python on the values of the examples:
  \<^item> \<open>float_of_int\<close> converts the ints up to \<open>2 ^ 53\<close>, which are doubles; no larger int
    is converted in the examples;
  \<^item> \<open>float_round\<close> leaves its argument as it is: the sums and quotients of the examples
    (\<open>60 + 70\<close>, \<open>130 / 2\<close>, \<open>0.5 + 0.5\<close>, \<open>1 + 0.5\<close>, \<open>1.5 / 3\<close>) are doubles;
  \<^item> \<open>str_of_float\<close> is right at \<^verbatim>\<open>1.0\<close>, the only float the examples print.
\<close>

definition example_env :: env where
  "example_env =
     \<lparr> float_of_str = (\<lambda>s. if s = ''0.5'' then Some 0.5 else None),
       float_of_int = (\<lambda>n. if \<bar>n\<bar> \<le> 2 ^ 53 then Some (real_of_int n) else None),
       float_round = (\<lambda>x. x),
       str_of_float = (\<lambda>x. ''1.0''),
       model_predict = (\<lambda>name X. Returns (Np_number (sum_list X))) \<rparr>"

text \<open>A reading with all ten features, one of them given as a string.\<close>

definition example_reading :: json where
  "example_reading =
     JObj [(''temperature_one'', JNum 60), (''temperature_two'', JNum 70),
           (''vibration_x'', JNum 0.5), (''vibration_y'', JStr ''0.5''),
           (''vibration_z'', JNum 0.5),
           (''magnetic_flux_x'', JNum 1), (''magnetic_flux_y'', JNum 2),
           (''magnetic_flux_z'', JNum 3),
           (''audible_sound'', JNum 4), (''ultra_sound'', JNum 5)]"

text \<open>The same reading without the feature \<^verbatim>\<open>vibration_x\<close>.\<close>

definition reading_without_vibration_x :: json where
  "reading_without_vibration_x =
     JObj [(''temperature_one'', JNum 60), (''temperature_two'', JNum 70),
           (''vibration_y'', JNum 0.5), (''vibration_z'', JNum 0.5),
           (''magnetic_flux_x'', JNum 1), (''magnetic_flux_y'', JNum 2),
           (''magnetic_flux_z'', JNum 3),
           (''audible_sound'', JNum 4), (''ultra_sound'', JNum 5)]"

text \<open>
  The entries of a reading with all ten features, every value a float, whose first
  temperature and whose ultra-sound value are both \<open>t\<close>.
\<close>

definition tie_items :: "real \<Rightarrow> (string \<times> json) list" where
  "tie_items t =
     [(''temperature_one'', JNum t), (''temperature_two'', JNum 70),
      (''vibration_x'', JNum 0.5), (''vibration_y'', JNum 0.5),
      (''vibration_z'', JNum 0.5),
      (''magnetic_flux_x'', JNum 1), (''magnetic_flux_y'', JNum 2),
      (''magnetic_flux_z'', JNum 3),
      (''audible_sound'', JNum 4), (''ultra_sound'', JNum t)]"

text \<open>The same entries with the first temperature given as the int \<open>n\<close>.\<close>

definition int_items :: "int \<Rightarrow> (string \<times> json) list" where
  "int_items n =
     [(''temperature_one'', JInt n), (''temperature_two'', JNum 70),
      (''vibration_x'', JNum 0.5), (''vibration_y'', JNum 0.5),
      (''vibration_z'', JNum 0.5),
      (''magnetic_flux_x'', JNum 1), (''magnetic_flux_y'', JNum 2),
      (''magnetic_flux_z'', JNum 3),
      (''audible_sound'', JNum 4), (''ultra_sound'', JNum 5)]"

text \<open>
  Two batches of three predictions, the same for every model: all numeric, and of mixed
  kinds.
\<close>

definition numeric_predictions :: "predictions list" where
  "numeric_predictions = map (\<lambda>p key. Some p) [Num 1, Num 2, Num 6]"

definition mixed_predictions :: "predictions list" where
  "mixed_predictions = map (\<lambda>p key. Some p) [Str ''a'', Num 1, Str ''1.0'']"

subsection \<open>Failing invocations\<close>

text \<open>
  The invocation of one model on one reading fails when it ends the loop over the
  futures: it raises, or its result has the key \<^verbatim>\<open>error\<close>.
\<close>

definition fails :: "env \<Rightarrow> string \<Rightarrow> json \<Rightarrow> bool" where
  "fails env model_name input_data =
     (case predict_single_model env model_name input_data of
        Inl e \<Rightarrow> True
      | Inr (Invalid_input name e) \<Rightarrow> True
      | Inr (Prediction key p) \<Rightarrow> key = ''error'')"

text \<open>
  The dictionary \<open>preds\<close> holds, for every model, the prediction its invocation on the
  reading returns.
\<close>

definition fulfilled :: "env \<Rightarrow> json \<Rightarrow> predictions \<Rightarrow> bool" where
  "fulfilled env input_data preds =
     list_all (\<lambda>name.
        case predict_single_model env name input_data of
          Inr (Prediction key p) \<Rightarrow>
            key = strip_model name \<and> key \<noteq> ''error'' \<and> preds key = Some p
        | _ \<Rightarrow> False) model_names"

text \<open>A reading with all ten features whose \<^verbatim>\<open>vibration_x\<close> is a text that is no number.\<close>

definition reading_with_text :: json where
  "reading_with_text =
     JObj [(''temperature_one'', JNum 60), (''temperature_two'', JNum 70),
           (''vibration_x'', JStr ''abc''), (''vibration_y'', JNum 0.5),
           (''vibration_z'', JNum 0.5),
           (''magnetic_flux_x'', JNum 1), (''magnetic_flux_y'', JNum 2),
           (''magnetic_flux_z'', JNum 3),
           (''audible_sound'', JNum 4), (''ultra_sound'', JNum 5)]"

section \<open>Properties\<close>

subsection \<open>The health analyzer\<close>

lemma analyze_health_Inr:
  assumes "m ''temperature_one'' = Some t1"
    and "m ''temperature_two'' = Some t2"
    and "m ''vibration_x'' = Some vx"
    and "m ''vibration_y'' = Some vy"
    and "m ''vibration_z'' = Some vz"
    and "T = float_round env (float_round env (t1 + t2) / 2)"
    and "V = float_round env (float_round env (float_round env (vx + vy) + vz) / 3)"
  shows "analyze_health env now m = Inr
      \<lparr> machine_condition = evaluate_machine_condition T V,
        temperature_analysis = detect_temperature_anomaly T,
        vibration_analysis = detect_vibration_anomaly V,
        timestamp = now,
        overall_health =
          (if evaluate_machine_condition T V = ''Safe Condition''
           then ''Healthy'' else ''Unhealthy'') \<rparr>"
  using assms
  by (simp add: analyze_health_def mode_item_def Let_def
      del: evaluate_machine_condition.simps detect_temperature_anomaly.simps
        detect_vibration_anomaly.simps)

lemma analyze_health_InrD:
  assumes "analyze_health env now m = Inr r"
  obtains t1 t2 vx vy vz where "m ''temperature_one'' = Some t1"
    and "m ''temperature_two'' = Some t2"
    and "m ''vibration_x'' = Some vx"
    and "m ''vibration_y'' = Some vy"
    and "m ''vibration_z'' = Some vz"
  using assms
  by (auto simp: analyze_health_def mode_item_def split: option.splits sum.splits)

text \<open>
  Every report of the health analyzer is made of the three lookups at the two averages
  the analyzer computes from the modes.
\<close>

lemma analyze_health_report:
  assumes "analyze_health env now m = Inr r"
  shows "\<exists>t1 t2 vx vy vz T V.
      m ''temperature_one'' = Some t1 \<and> m ''temperature_two'' = Some t2 \<and>
      m ''vibration_x'' = Some vx \<and> m ''vibration_y'' = Some vy \<and>
      m ''vibration_z'' = Some vz \<and>
      T = float_round env (float_round env (t1 + t2) / 2) \<and>
      V = float_round env (float_round env (float_round env (vx + vy) + vz) / 3) \<and>
      r = \<lparr> machine_condition = evaluate_machine_condition T V,
            temperature_analysis = detect_temperature_anomaly T,
            vibration_analysis = detect_vibration_anomaly V,
            timestamp = now,
            overall_health =
              (if evaluate_machine_condition T V = ''Safe Condition''
               then ''Healthy'' else ''Unhealthy'') \<rparr>"
proof -
  from assms obtain t1 t2 vx vy vz where m: "m ''temperature_one'' = Some t1"
    "m ''temperature_two'' = Some t2" "m ''vibration_x'' = Some vx"
    "m ''vibration_y'' = Some vy" "m ''vibration_z'' = Some vz"
    by (rule analyze_health_InrD)
  from analyze_health_Inr [OF m refl refl, of env now] assms m show ?thesis
    by (intro exI conjI) (assumption | rule refl | simp)+
qed

lemma analyze_health_example:
  "analyze_health example_env now example_modes = Inr
     \<lparr> machine_condition = ''Safe Condition'',
       temperature_analysis = ''No significant temperature anomaly detected'',
       vibration_analysis = ''No significant vibration anomaly detected'',
       timestamp = now,
       overall_health = ''Healthy'' \<rparr>"
  by (simp add: analyze_health_def mode_item_def example_modes_def example_env_def)

text \<open>
  The rounding decides the tier at the bounds. Python computes \<^verbatim>\<open>2.8 + 2.8\<close> to
  \<^verbatim>\<open>5.6\<close>, \<^verbatim>\<open>5.6 + 2.8\<close> to \<^verbatim>\<open>8.399999999999999\<close> and \<^verbatim>\<open>8.399999999999999 / 3\<close> to
  \<^verbatim>\<open>2.7999999999999994\<close>: with this rounding the three vibration modes 2.8 have an
  average below 2.8, and the report says Maintain and Unbalance, where the exact average
  2.8 would give Repair and Misalignment.
\<close>

lemma analyze_health_rounded_example:
  assumes "float_round env 130 = 130" and "float_round env 65 = 65"
    and "float_round env 5.6 = 5.6"
    and "float_round env 8.4 = 8.399999999999999"
    and "float_round env (8.399999999999999 / 3) = 2.7999999999999994"
  shows "analyze_health env now
       (map_of [(''temperature_one'', 60), (''temperature_two'', 70),
                (''vibration_x'', 2.8), (''vibration_y'', 2.8), (''vibration_z'', 2.8)]) =
     Inr \<lparr> machine_condition = ''Maintain Condition'',
           temperature_analysis = ''No significant temperature anomaly detected'',
           vibration_analysis = ''Unbalance Fault'',
           timestamp = now,
           overall_health = ''Unhealthy'' \<rparr>"
proof -
  have a: "(60::real) + 70 = 130" "(130::real) / 2 = 65"
    "(2.8::real) + 2.8 = 5.6" "(5.6::real) + 2.8 = 8.4"
    by simp_all
  have T: "float_round env (float_round env (60 + 70) / 2) = 65"
    by (simp only: a assms)
  have V:
    "float_round env (float_round env (float_round env (2.8 + 2.8) + 2.8) / 3) =
      2.7999999999999994"
    by (simp only: a assms)
  have "analyze_health env now
       (map_of [(''temperature_one'', 60), (''temperature_two'', 70),
                (''vibration_x'', 2.8), (''vibration_y'', 2.8), (''vibration_z'', 2.8)]) =
     Inr \<lparr> machine_condition = evaluate_machine_condition 65 2.7999999999999994,
        temperature_analysis = detect_temperature_anomaly 65,
        vibration_analysis = detect_vibration_anomaly 2.7999999999999994,
        timestamp = now,
        overall_health =
          (if evaluate_machine_condition 65 2.7999999999999994 = ''Safe Condition''
           then ''Healthy'' else ''Unhealthy'') \<rparr>"
    by (rule analyze_health_Inr [OF _ _ _ _ _ T [symmetric] V [symmetric]]) simp_all
  then show ?thesis by simp
qed



text \<open>
  Claim C6. For every average temperature \<open>T\<close>, the temperature analysis is the lookup of
  \<open>T\<close> in the four half-open tiers below 80, from 80 to 100, from 100 to 120 and from 120
  on; for every average vibration \<open>V\<close>, the vibration analysis is the lookup of \<open>V\<close> in the
  five tiers below 1.8, from 1.8 to 2.8, from 2.8 to 4.5, from 4.5 to 7.1 and from 7.1 on.
\<close>

theorem anomaly_tiers:
  "(detect_temperature_anomaly T = ''No significant temperature anomaly detected'' \<longleftrightarrow>
      T < 80) \<and>
   (detect_temperature_anomaly T = ''Moderate Overheating - Check Lubrication'' \<longleftrightarrow>
      80 \<le> T \<and> T < 100) \<and>
   (detect_temperature_anomaly T =
      ''Significant Overheating - Possible Misalignment or Bearing Wear'' \<longleftrightarrow>
      100 \<le> T \<and> T < 120) \<and>
   (detect_temperature_anomaly T = ''Critical Overheating - Immediate Repair Needed'' \<longleftrightarrow>
      120 \<le> T) \<and>
   (detect_vibration_anomaly V = ''No significant vibration anomaly detected'' \<longleftrightarrow>
      V < 1.8) \<and>
   (detect_vibration_anomaly V = ''Unbalance Fault'' \<longleftrightarrow> 1.8 \<le> V \<and> V < 2.8) \<and>
   (detect_vibration_anomaly V = ''Misalignment Fault'' \<longleftrightarrow> 2.8 \<le> V \<and> V < 4.5) \<and>
   (detect_vibration_anomaly V = ''Looseness Fault'' \<longleftrightarrow> 4.5 \<le> V \<and> V < 7.1) \<and>
   (detect_vibration_anomaly V = ''Bearing Fault or Gear Mesh Fault'' \<longleftrightarrow> 7.1 \<le> V)"
  by simp

theorem anomaly_tiers_witness:
  "detect_temperature_anomaly 79.999 = ''No significant temperature anomaly detected'' \<and>
   detect_temperature_anomaly 80 = ''Moderate Overheating - Check Lubrication'' \<and>
   detect_temperature_anomaly 100 =
     ''Significant Overheating - Possible Misalignment or Bearing Wear'' \<and>
   detect_temperature_anomaly 120 = ''Critical Overheating - Immediate Repair Needed'' \<and>
   detect_vibration_anomaly 1.7 = ''No significant vibration anomaly detected'' \<and>
   detect_vibration_anomaly 1.8 = ''Unbalance Fault'' \<and>
   detect_vibration_anomaly 2.8 = ''Misalignment Fault'' \<and>
   detect_vibration_anomaly 4.5 = ''Looseness Fault'' \<and>
   detect_vibration_anomaly 7.1 = ''Bearing Fault or Gear Mesh Fault''"
  using anomaly_tiers [of "79.999" "1.7"] anomaly_tiers [of 80 "1.8"]
    anomaly_tiers [of 100 "2.8"] anomaly_tiers [of 120 "4.5"] anomaly_tiers [of 120 "7.1"]
  by simp

text \<open>
  In every report the two analyses are these lookups at the averages the analyzer has
  computed.
\<close>

lemma analyze_health_analyses:
  assumes "analyze_health env now m = Inr r"
  shows "\<exists>t1 t2 vx vy vz.
      m ''temperature_one'' = Some t1 \<and> m ''temperature_two'' = Some t2 \<and>
      m ''vibration_x'' = Some vx \<and> m ''vibration_y'' = Some vy \<and>
      m ''vibration_z'' = Some vz \<and>
      temperature_analysis r =
        detect_temperature_anomaly (float_round env (float_round env (t1 + t2) / 2)) \<and>
      vibration_analysis r =
        detect_vibration_anomaly
          (float_round env (float_round env (float_round env (vx + vy) + vz) / 3))"
proof -
  from analyze_health_report [OF assms] obtain t1 t2 vx vy vz T V where
    m: "m ''temperature_one'' = Some t1" "m ''temperature_two'' = Some t2"
      "m ''vibration_x'' = Some vx" "m ''vibration_y'' = Some vy"
      "m ''vibration_z'' = Some vz"
    and T: "T = float_round env (float_round env (t1 + t2) / 2)"
    and V: "V = float_round env (float_round env (float_round env (vx + vy) + vz) / 3)"
    and r: "r = \<lparr> machine_condition = evaluate_machine_condition T V,
          temperature_analysis = detect_temperature_anomaly T,
          vibration_analysis = detect_vibration_anomaly V,
          timestamp = now,
          overall_health =
            (if evaluate_machine_condition T V = ''Safe Condition''
             then ''Healthy'' else ''Unhealthy'') \<rparr>"
    by blast
  have "temperature_analysis r =
        detect_temperature_anomaly (float_round env (float_round env (t1 + t2) / 2))"
    and "vibration_analysis r =
        detect_vibration_anomaly
          (float_round env (float_round env (float_round env (vx + vy) + vz) / 3))"
    unfolding r T V by simp_all
  with m show ?thesis by blast
qed

lemma healthy_label_iff:
  "(if evaluate_machine_condition T V = ''Safe Condition'' then ''Healthy'' else ''Unhealthy'')
      = ''Healthy'' \<longleftrightarrow>
   detect_temperature_anomaly T = ''No significant temperature anomaly detected'' \<and>
   detect_vibration_anomaly V = ''No significant vibration anomaly detected''"
  by simp

text \<open>
  Claim C10. In every report of the health analyzer, the overall health is Healthy if and
  only if the temperature analysis and the vibration analysis both report no anomaly.
\<close>

theorem healthy_iff_no_anomaly:
  assumes "analyze_health env now m = Inr r"
  shows "overall_health r = ''Healthy'' \<longleftrightarrow>
     temperature_analysis r = ''No significant temperature anomaly detected'' \<and>
     vibration_analysis r = ''No significant vibration anomaly detected''"
proof -
  from analyze_health_report [OF assms] obtain T V where
    "r = \<lparr> machine_condition = evaluate_machine_condition T V,
          temperature_analysis = detect_temperature_anomaly T,
          vibration_analysis = detect_vibration_anomaly V,
          timestamp = now,
          overall_health =
            (if evaluate_machine_condition T V = ''Safe Condition''
             then ''Healthy'' else ''Unhealthy'') \<rparr>"
    by blast
  then show ?thesis
    by (simp add: healthy_label_iff
        del: evaluate_machine_condition.simps detect_temperature_anomaly.simps
          detect_vibration_anomaly.simps)
qed

theorem healthy_iff_no_anomaly_witness:
  "\<exists>r. analyze_health example_env ''2024-05-01T12:00:00'' example_modes = Inr r \<and>
     overall_health r = ''Healthy'' \<and>
     temperature_analysis r = ''No significant temperature anomaly detected'' \<and>
     vibration_analysis r = ''No significant vibration anomaly detected''"
proof -
  obtain r where r: "analyze_health example_env ''2024-05-01T12:00:00'' example_modes = Inr r"
    and h: "overall_health r = ''Healthy''"
    by (simp add: analyze_health_example)
  from healthy_iff_no_anomaly [OF r] r h show ?thesis by simp
qed

subsection \<open>The features of the modes\<close>

lemma mode_keys_eq:
  "mode_keys =
     [''temperature_one'', ''temperature_two'', ''vibration_x'', ''vibration_y'',
      ''vibration_z'', ''magnetic_flux_x'', ''magnetic_flux_y'', ''magnetic_flux_z'',
      ''audible_sound'']"
  by (simp add: mode_keys_def feature_sets_def)

lemma append_values_keys:
  "append_values env input_data all_values = Inr all_values' \<Longrightarrow>
   map fst all_values' = map fst all_values"
  by (induction all_values arbitrary: all_values')
    (auto split: sum.splits)

lemma collect_values_keys:
  "collect_values env input_data_array all_values = Inr all_values' \<Longrightarrow>
   map fst all_values' = map fst all_values"
  by (induction input_data_array arbitrary: all_values)
    (auto split: sum.splits dest: append_values_keys)

lemma mode_loop_dom:
  "mode_loop all_values mode_values = Inr mode_values' \<Longrightarrow>
   dom mode_values' = dom mode_values \<union> set (map fst all_values)"
proof (induction all_values arbitrary: mode_values)
  case Nil
  then show ?case by simp
next
  case (Cons item rest)
  obtain key "values" where item: "item = (key, values)"
    by (cases item)
  from Cons.prems item obtain m where
    "mode_loop rest (mode_values(key \<mapsto> m)) = Inr mode_values'"
    by (auto split: sum.splits)
  from Cons.IH [OF this] item show ?case by auto
qed

lemma calculate_modes_dom:
  assumes "calculate_modes env input_data_array = Inr mode_values"
  shows "dom mode_values = set mode_keys"
proof -
  from assms obtain all_values where
    c: "collect_values env input_data_array (map (\<lambda>key. (key, [])) mode_keys) = Inr all_values"
    and m: "mode_loop all_values Map.empty = Inr mode_values"
    by (auto simp: calculate_modes_def split: sum.splits)
  from collect_values_keys [OF c] have "map fst all_values = mode_keys"
    by (simp add: comp_def)
  with mode_loop_dom [OF m] show ?thesis by simp
qed

text \<open>
  Claim C2 (evaluated on the code). Whenever the mode extractor returns, the modes have
  exactly nine keys: the two temperatures, the three vibration axes, the three magnetic-flux
  axes and \<^verbatim>\<open>audible_sound\<close>. The feature \<^verbatim>\<open>ultra_sound\<close> has no entry: the source adds
  \<^verbatim>\<open>feature_sets['audible_sound_model'][3:]\<close> and has no such term for the ultra-sound
  model.
\<close>

theorem modes_lack_ultra_sound:
  assumes "calculate_modes env input_data_array = Inr mode_values"
  shows "dom mode_values =
      {''temperature_one'', ''temperature_two'', ''vibration_x'', ''vibration_y'',
       ''vibration_z'', ''magnetic_flux_x'', ''magnetic_flux_y'', ''magnetic_flux_z'',
       ''audible_sound''} \<and>
     mode_values ''ultra_sound'' = None"
proof -
  have d: "dom mode_values =
      {''temperature_one'', ''temperature_two'', ''vibration_x'', ''vibration_y'',
       ''vibration_z'', ''magnetic_flux_x'', ''magnetic_flux_y'', ''magnetic_flux_z'',
       ''audible_sound''}"
    using calculate_modes_dom [OF assms] by (simp add: mode_keys_eq)
  have "''ultra_sound'' \<notin> dom mode_values"
    unfolding d by simp
  with d show ?thesis by blast
qed

lemma calculate_modes_example:
  "calculate_modes example_env [example_reading] =
     Inr [''temperature_one'' \<mapsto> 60, ''temperature_two'' \<mapsto> 70, ''vibration_x'' \<mapsto> 0.5,
          ''vibration_y'' \<mapsto> 0.5, ''vibration_z'' \<mapsto> 0.5, ''magnetic_flux_x'' \<mapsto> 1,
          ''magnetic_flux_y'' \<mapsto> 2, ''magnetic_flux_z'' \<mapsto> 3, ''audible_sound'' \<mapsto> 4]"
  by (simp add: calculate_modes_def mode_keys_eq example_env_def example_reading_def
      float_item_def most_common_value_def most_common_1_def Counter_def)

theorem modes_lack_ultra_sound_witness:
  "\<exists>mode_values. calculate_modes example_env [example_reading] = Inr mode_values \<and>
     mode_values ''audible_sound'' = Some 4 \<and> mode_values ''ultra_sound'' = None"
  using modes_lack_ultra_sound [OF calculate_modes_example] calculate_modes_example
  by simp

subsection \<open>Missing and unparseable features\<close>

text \<open>
  Claim C1 (evaluated on the code). A reading that is a dictionary without the key
  \<^verbatim>\<open>vibration_x\<close> makes the invocation of the vibration model raise \<open>KeyError\<close>: the
  handler \<^verbatim>\<open>except (ValueError, TypeError)\<close> does not catch it, so no error dictionary that
  names the model is returned.
\<close>

theorem missing_feature_raises:
  assumes "map_of items ''vibration_x'' = None"
  shows "predict_single_model env ''vibration_model'' (JObj items) = Inl (KeyError ''vibration_x'')"
  using assms
  by (simp add: predict_single_model_def feature_sets_def try_predict_def float_item_def)

theorem missing_feature_raises_witness:
  "predict_single_model example_env ''vibration_model'' reading_without_vibration_x =
     Inl (KeyError ''vibration_x'')"
  unfolding reading_without_vibration_x_def
  by (rule missing_feature_raises) simp

text \<open>A value that is not parseable is reported as the claim says.\<close>

lemma unparseable_feature_is_reported:
  "predict_single_model example_env ''vibration_model''
     (JObj [(''vibration_x'', JStr ''abc''), (''vibration_y'', JNum 1), (''vibration_z'', JNum 1)]) =
   Inr (Invalid_input ''vibration_model'' ValueError)"
  by (simp add: predict_single_model_def feature_sets_def try_predict_def float_item_def
      example_env_def)

text \<open>
  At the route, the \<open>KeyError\<close> is caught by \<^verbatim>\<open>except Exception\<close>: the response has the
  status 500 and carries the text of the exception, which is the quoted feature name.
\<close>

lemma predict_missing_feature_example:
  "predict example_env (\<lambda>i. model_names) now
     (JArr [reading_without_vibration_x, reading_without_vibration_x]) =
   (Exception_message (KeyError ''vibration_x''), 500)"
  by (simp add: predict_from_models_def model_names_def predict_single_model_def
      feature_sets_def try_predict_def float_item_def example_env_def
      reading_without_vibration_x_def)

subsection \<open>Validation of the request\<close>

text \<open>
  Claim C4. The route answers with a shape error (status 400, a fixed message that no
  model can influence) exactly when the input is not a list, is the empty list, or is a
  list of more than 1800 readings. Every list of 1 to 1800 readings is handed to
  \<open>predict_from_models\<close>, whose outcome is the response.
\<close>

theorem validation:
  "((\<forall>arr. input \<noteq> JArr arr) \<longrightarrow>
      predict env completion now input = (Error_message ''Input must be an array'', 400)) \<and>
   predict env completion now (JArr []) = (Error_message ''Input array cannot be empty'', 400) \<and>
   (1800 < length arr \<longrightarrow>
      predict env completion now (JArr arr) =
        (Error_message ''Input array exceeds maximum length of 1800'', 400)) \<and>
   (1 \<le> length arr \<and> length arr \<le> 1800 \<longrightarrow>
      predict env completion now (JArr arr) =
        (case predict_from_models env completion now arr of
           Inr result \<Rightarrow> (Result result, 200)
         | Inl e \<Rightarrow> (Exception_message e, 500))) \<and>
   (snd (predict env completion now input) = 400 \<longleftrightarrow>
      (\<forall>arr. input = JArr arr \<longrightarrow> arr = [] \<or> 1800 < length arr))"
  by (cases input) (auto split: sum.splits)

theorem validation_witness:
  "predict example_env (\<lambda>i. model_names) ''2024-05-01T12:00:00'' (JStr ''readings'') =
     (Error_message ''Input must be an array'', 400) \<and>
   predict example_env (\<lambda>i. model_names) ''2024-05-01T12:00:00'' (JArr (replicate 1801 JNull)) =
     (Error_message ''Input array exceeds maximum length of 1800'', 400) \<and>
   predict example_env (\<lambda>i. model_names) ''2024-05-01T12:00:00'' (JArr (replicate 1800 JNull)) =
     (Result (Error_result (Invalid_input ''temperature_model'' TypeError)), 200)"
proof -
  let ?p = "predict example_env (\<lambda>i. model_names) ''2024-05-01T12:00:00''"
  note v = validation [where env = example_env and completion = "\<lambda>i. model_names"
      and now = "''2024-05-01T12:00:00''"]
  have a: "?p (JStr ''readings'') = (Error_message ''Input must be an array'', 400)"
    using v [where input = "JStr ''readings''"] by simp
  have b: "?p (JArr (replicate 1801 JNull)) =
      (Error_message ''Input array exceeds maximum length of 1800'', 400)"
    using v [where arr = "replicate 1801 JNull"] by simp
  have r: "replicate 1800 JNull = JNull # replicate 1799 JNull"
    using replicate_Suc [of 1799 JNull] by simp
  have "predict_from_models example_env (\<lambda>i. model_names) ''2024-05-01T12:00:00''
      (replicate 1800 JNull) = Inr (Error_result (Invalid_input ''temperature_model'' TypeError))"
    unfolding r
    by (simp add: predict_from_models_def model_names_def predict_single_model_def
        feature_sets_def try_predict_def float_item_def)
  then have c: "?p (JArr (replicate 1800 JNull)) =
      (Result (Error_result (Invalid_input ''temperature_model'' TypeError)), 200)"
    using v [where arr = "replicate 1800 JNull"] by simp
  from a b c show ?thesis by simp
qed

subsection \<open>Counter and most_common\<close>

lemma counter_add_keys:
  "map fst (counter_add x c) = (if x \<in> set (map fst c) then map fst c else map fst c @ [x])"
proof (induction c)
  case Nil
  show ?case by simp
next
  case (Cons p c)
  obtain k n where p: "p = (k, n)"
    by (cases p)
  show ?case
  proof (cases "k = x")
    case True
    with p show ?thesis by simp
  next
    case False
    with p have "x \<in> set (map fst (p # c)) \<longleftrightarrow> x \<in> set (map fst c)"
      by auto
    with False p Cons.IH show ?thesis
      by (simp del: set_map)
  qed
qed

lemma counter_add_map_of:
  "map_of (counter_add x c) =
     (map_of c)(x \<mapsto> (case map_of c x of None \<Rightarrow> 1 | Some n \<Rightarrow> Suc n))"
  by (induction c) (auto simp: fun_eq_iff)

lemma Counter_snoc: "Counter (xs @ [x]) = counter_add x (Counter xs)"
  by (simp add: Counter_def)

lemma Counter_keys_set: "set (map fst (Counter xs)) = set xs"
  by (induction xs rule: rev_induct) (auto simp: Counter_snoc counter_add_keys Counter_def)

lemma Counter_keys_distinct: "distinct (map fst (Counter xs))"
proof (induction xs rule: rev_induct)
  case Nil
  show ?case by (simp add: Counter_def)
next
  case (snoc x xs)
  then show ?case
    by (simp add: Counter_snoc counter_add_keys)
qed

lemma Counter_map_of:
  "map_of (Counter xs) y = (if y \<in> set xs then Some (count_list xs y) else None)"
proof (induction xs arbitrary: y rule: rev_induct)
  case Nil
  show ?case by (simp add: Counter_def)
next
  case (snoc x xs)
  then show ?case
    by (simp add: Counter_snoc counter_add_map_of)
qed

lemma Counter_count:
  assumes "(y, n) \<in> set (Counter xs)"
  shows "y \<in> set xs \<and> n = count_list xs y"
proof -
  from assms have "map_of (Counter xs) y = Some n"
    using Counter_keys_distinct [of xs] by simp
  then show ?thesis
    by (simp add: Counter_map_of split: if_splits)
qed

lemma Counter_keys_before:
  assumes "m \<in> set xs"
  shows "set (takeWhile (\<lambda>y. y \<noteq> m) (map fst (Counter xs))) = set (takeWhile (\<lambda>y. y \<noteq> m) xs)"
  using assms
proof (induction xs rule: rev_induct)
  case Nil
  then show ?case by simp
next
  case (snoc x xs)
  let ?keys = "map fst (Counter xs)"
  show ?case
  proof (cases "m \<in> set xs")
    case True
    then have k: "m \<in> set ?keys"
      by (simp only: Counter_keys_set)
    have "takeWhile (\<lambda>y. y \<noteq> m) (xs @ [x]) = takeWhile (\<lambda>y. y \<noteq> m) xs"
      using True by (simp add: takeWhile_append1)
    moreover have "takeWhile (\<lambda>y. y \<noteq> m) (?keys @ [x]) = takeWhile (\<lambda>y. y \<noteq> m) ?keys"
      using k by (simp add: takeWhile_append1)
    ultimately show ?thesis
      using snoc.IH [OF True] by (simp add: Counter_snoc counter_add_keys)
  next
    case False
    with snoc.prems have mx: "m = x" by simp
    from False have nk: "m \<notin> set ?keys"
      by (simp only: Counter_keys_set) simp
    have "takeWhile (\<lambda>y. y \<noteq> m) (xs @ [x]) = xs"
      using False mx by (subst takeWhile_append2) auto
    moreover have "takeWhile (\<lambda>y. y \<noteq> m) (?keys @ [x]) = ?keys"
      using nk mx by (subst takeWhile_append2) auto
    moreover have "set ?keys = set xs"
      by (rule Counter_keys_set)
    ultimately show ?thesis
      using nk mx by (simp add: Counter_snoc counter_add_keys)
  qed
qed

lemma max_by_count_greatest:
  "i \<in> set (best # items) \<Longrightarrow> snd i \<le> snd (max_by_count best items)"
proof (induction items arbitrary: best i)
  case Nil
  then show ?case by simp
next
  case (Cons item items)
  let ?b = "if snd best < snd item then item else best"
  have b: "snd ?b \<le> snd (max_by_count ?b items)"
    by (rule Cons.IH) simp
  from Cons.prems consider "i = best" | "i = item" | "i \<in> set items"
    by auto
  then show ?case
  proof cases
    case 1
    with b show ?thesis by (auto split: if_splits)
  next
    case 2
    with b show ?thesis by (auto split: if_splits)
  next
    case 3
    then have "snd i \<le> snd (max_by_count ?b items)"
      by (intro Cons.IH) simp
    then show ?thesis by simp
  qed
qed

lemma max_by_count_first:
  "\<exists>pre post. best # items = pre @ max_by_count best items # post \<and>
     (\<forall>i\<in>set pre. snd i < snd (max_by_count best items))"
proof (induction items arbitrary: best)
  case Nil
  show ?case by (rule exI [of _ "[]"]) simp
next
  case (Cons item items)
  define b where "b = (if snd best < snd item then item else best)"
  define r where "r = max_by_count b items"
  have r_eq: "max_by_count best (item # items) = r"
    by (simp add: r_def b_def)
  from Cons.IH [of b] obtain pre post where
    d: "b # items = pre @ r # post" and l: "\<forall>i\<in>set pre. snd i < snd r"
    unfolding r_def by blast
  have g: "snd b \<le> snd r"
    unfolding r_def by (rule max_by_count_greatest) simp
  have "\<exists>pre' post'. best # item # items = pre' @ r # post' \<and> (\<forall>i\<in>set pre'. snd i < snd r)"
  proof (cases "snd best < snd item")
    case True
    then have "b = item"
      by (simp add: b_def)
    with d have "best # item # items = (best # pre) @ r # post"
      by simp
    moreover from True g l \<open>b = item\<close> have "\<forall>i\<in>set (best # pre). snd i < snd r"
      by auto
    ultimately show ?thesis by blast
  next
    case False
    then have bb: "b = best"
      by (simp add: b_def)
    show ?thesis
    proof (cases pre)
      case Nil
      with d bb have "best # item # items = [] @ r # item # items"
        by simp
      moreover have "\<forall>i\<in>set []. snd i < snd r"
        by simp
      ultimately show ?thesis by blast
    next
      case (Cons p pre')
      with d bb have p: "p = best" and i: "items = pre' @ r # post"
        by simp_all
      from Cons p l have "snd best < snd r" and "\<forall>i\<in>set pre'. snd i < snd r"
        by simp_all
      with False have "\<forall>i\<in>set (best # item # pre'). snd i < snd r"
        by auto
      moreover from i have "best # item # items = (best # item # pre') @ r # post"
        by simp
      ultimately show ?thesis by blast
    qed
  qed
  then show ?case
    unfolding r_eq .
qed

lemma Counter_Nil_iff: "Counter xs = [] \<longleftrightarrow> xs = []"
  using Counter_keys_set [of xs] by (cases "Counter xs") auto

lemma most_common_value_empty: "most_common_value [] = Inl IndexError"
  by (simp add: most_common_value_def most_common_1_def Counter_def)

lemma most_common_value_first_most_frequent:
  assumes "xs \<noteq> []"
  shows "\<exists>m. most_common_value xs = Inr m \<and> first_most_frequent xs m"
proof -
  from assms obtain item items where c: "Counter xs = item # items"
    using Counter_Nil_iff [of xs] by (cases "Counter xs") auto
  define r where "r = max_by_count item items"
  define m where "m = fst r"
  have res: "most_common_value xs = Inr m"
    by (simp add: most_common_value_def most_common_1_def c r_def m_def)
  from max_by_count_first [of item items] obtain pre post where
    d: "Counter xs = pre @ r # post" and l: "\<forall>i\<in>set pre. snd i < snd r"
    unfolding r_def c by blast
  have rin: "(m, snd r) \<in> set (Counter xs)"
    unfolding d m_def by simp
  then have m_in: "m \<in> set xs" and r_count: "snd r = count_list xs m"
    using Counter_count [of m "snd r" xs] by simp_all
  have greatest: "count_list xs y \<le> count_list xs m" if "y \<in> set xs" for y
  proof -
    from that have "map_of (Counter xs) y = Some (count_list xs y)"
      by (simp add: Counter_map_of)
    then have "(y, count_list xs y) \<in> set (item # items)"
      unfolding c [symmetric] by (rule map_of_SomeD)
    then have "snd (y, count_list xs y) \<le> snd r"
      unfolding r_def by (rule max_by_count_greatest)
    then show ?thesis by (simp add: r_count)
  qed
  have before: "count_list xs y < count_list xs m"
    if "y \<in> set (takeWhile (\<lambda>y. y \<noteq> m) xs)" for y
  proof -
    have dist: "distinct (map fst pre @ m # map fst post)"
      using Counter_keys_distinct [of xs] unfolding d m_def by simp
    then have "m \<notin> set (map fst pre)"
      by auto
    then have "takeWhile (\<lambda>y. y \<noteq> m) (map fst pre @ m # map fst post) = map fst pre"
      by (subst takeWhile_append2) auto
    then have "takeWhile (\<lambda>y. y \<noteq> m) (map fst (Counter xs)) = map fst pre"
      unfolding d m_def by simp
    with that Counter_keys_before [OF m_in] have "y \<in> set (map fst pre)"
      by simp
    then obtain n where yn: "(y, n) \<in> set pre"
      by auto
    then have "(y, n) \<in> set (Counter xs)"
      unfolding d by simp
    then have "n = count_list xs y"
      using Counter_count [of y n xs] by simp
    with l yn show ?thesis
      by (auto simp: r_count)
  qed
  have "first_most_frequent xs m"
    unfolding first_most_frequent_def list_all_iff
    using m_in greatest before by blast
  with res show ?thesis by blast
qed

text \<open>The three conditions determine the mode.\<close>

lemma first_most_frequent_unique:
  assumes "first_most_frequent xs m" and "first_most_frequent xs m'"
  shows "m = m'"
proof (rule ccontr)
  assume ne: "m \<noteq> m'"
  from assms have m: "m \<in> set xs" and m': "m' \<in> set xs"
    and eq: "count_list xs m = count_list xs m'"
    and b: "\<forall>y\<in>set (takeWhile (\<lambda>y. y \<noteq> m) xs). count_list xs y < count_list xs m"
    and b': "\<forall>y\<in>set (takeWhile (\<lambda>y. y \<noteq> m') xs). count_list xs y < count_list xs m'"
    unfolding first_most_frequent_def list_all_iff by (auto intro: antisym)
  have "m' \<in> set (takeWhile (\<lambda>y. y \<noteq> m) xs) \<or> m \<in> set (takeWhile (\<lambda>y. y \<noteq> m') xs)"
    using m m' ne by (induction xs) auto
  with b b' eq show False by auto
qed

subsection \<open>The mode extractor\<close>

lemma append_values_Inr:
  assumes "\<forall>key\<in>set (map fst all_values). \<exists>x. float_item env r key = Inr x"
  shows "append_values env r all_values =
     Inr (map (\<lambda>(key, vs). (key, vs @ [projr (float_item env r key)])) all_values)"
  using assms by (induction all_values) auto

lemma collect_values_Inr:
  assumes "\<forall>r\<in>set rs. \<forall>key\<in>set (map fst all_values). \<exists>x. float_item env r key = Inr x"
  shows "collect_values env rs all_values =
     Inr (map (\<lambda>(key, vs). (key, vs @ map (\<lambda>r. projr (float_item env r key)) rs)) all_values)"
  using assms
proof (induction rs arbitrary: all_values)
  case Nil
  show ?case by (simp add: case_prod_unfold)
next
  case (Cons r rs)
  let ?av = "map (\<lambda>(key, vs). (key, vs @ [projr (float_item env r key)])) all_values"
  have a: "append_values env r all_values = Inr ?av"
    by (rule append_values_Inr) (use Cons.prems in simp)
  have k: "map fst ?av = map fst all_values"
    by (simp add: case_prod_unfold comp_def)
  have "collect_values env rs ?av =
     Inr (map (\<lambda>(key, vs). (key, vs @ map (\<lambda>r. projr (float_item env r key)) rs)) ?av)"
    by (rule Cons.IH) (use Cons.prems k in simp)
  with a show ?case
    by (simp add: case_prod_unfold comp_def)
qed

lemma mode_loop_other:
  "mode_loop all_values mode_values = Inr mode_values' \<Longrightarrow>
   key \<notin> set (map fst all_values) \<Longrightarrow> mode_values' key = mode_values key"
proof (induction all_values arbitrary: mode_values)
  case Nil
  then show ?case by simp
next
  case (Cons item rest)
  obtain k vs where item: "item = (k, vs)"
    by (cases item)
  from Cons.prems item obtain m where
    l: "mode_loop rest (mode_values(k \<mapsto> m)) = Inr mode_values'"
    by (auto split: sum.splits)
  from Cons.prems item have "key \<notin> set (map fst rest)" and "key \<noteq> k"
    by auto
  with Cons.IH [OF l] show ?case by simp
qed

lemma mode_loop_lookup:
  "mode_loop all_values mode_values = Inr mode_values' \<Longrightarrow>
   distinct (map fst all_values) \<Longrightarrow> (key, vs) \<in> set all_values \<Longrightarrow>
   \<exists>m. most_common_value vs = Inr m \<and> mode_values' key = Some m"
proof (induction all_values arbitrary: mode_values)
  case Nil
  then show ?case by simp
next
  case (Cons item rest)
  obtain k ws where item: "item = (k, ws)"
    by (cases item)
  from Cons.prems item obtain m where
    mc: "most_common_value ws = Inr m"
    and l: "mode_loop rest (mode_values(k \<mapsto> m)) = Inr mode_values'"
    by (auto split: sum.splits)
  show ?case
  proof (cases "(key, vs) = item")
    case True
    with item Cons.prems have "key \<notin> set (map fst rest)"
      by auto
    from mode_loop_other [OF l this] True item mc show ?thesis
      by simp
  next
    case False
    with Cons.prems have "(key, vs) \<in> set rest" and "distinct (map fst rest)"
      by auto
    with Cons.IH [OF l] show ?thesis by blast
  qed
qed

lemma mode_loop_Inr:
  assumes "\<forall>item\<in>set all_values. snd item \<noteq> []"
  shows "\<exists>mode_values'. mode_loop all_values mode_values = Inr mode_values'"
  using assms
proof (induction all_values arbitrary: mode_values)
  case Nil
  show ?case by simp
next
  case (Cons item rest)
  obtain k ws where item: "item = (k, ws)"
    by (cases item)
  with Cons.prems have "ws \<noteq> []"
    by simp
  then obtain m where "most_common_value ws = Inr m"
    using most_common_value_first_most_frequent by blast
  moreover have "\<exists>mode_values'. mode_loop rest (mode_values(k \<mapsto> m)) = Inr mode_values'"
    by (rule Cons.IH) (use Cons.prems in simp)
  ultimately show ?case
    using item by simp
qed

text \<open>
  The mode extractor on a non-empty batch whose readings all carry the nine features of
  the modes as values that \<^verbatim>\<open>float\<close> accepts: it returns, and the mode of each of the nine
  features is the first most frequent of the floats of that feature across the batch.
\<close>

lemma calculate_modes_columns:
  assumes ne: "input_data_array \<noteq> []"
    and readable:
      "\<forall>r\<in>set input_data_array. \<forall>k\<in>set mode_keys. \<exists>x. float_item env r k = Inr x"
  shows "\<exists>mode_values. calculate_modes env input_data_array = Inr mode_values \<and>
     (\<forall>key\<in>set mode_keys. \<exists>m. mode_values key = Some m \<and>
        first_most_frequent (map (\<lambda>r. projr (float_item env r key)) input_data_array) m)"
proof -
  define column where "column k = map (\<lambda>r. projr (float_item env r k)) input_data_array" for k
  define all_values where "all_values = map (\<lambda>k. (k, column k)) mode_keys"
  have "collect_values env input_data_array (map (\<lambda>key. (key, [])) mode_keys) =
      Inr (map (\<lambda>(key, vs). (key, vs @ column key)) (map (\<lambda>key. (key, [])) mode_keys))"
    unfolding column_def
    by (rule collect_values_Inr) (use readable in \<open>simp add: comp_def\<close>)
  then have c: "collect_values env input_data_array (map (\<lambda>key. (key, [])) mode_keys) =
      Inr all_values"
    by (simp add: all_values_def comp_def)
  have "\<forall>item\<in>set all_values. snd item \<noteq> []"
    using ne by (auto simp: all_values_def column_def)
  then obtain mode_values where l: "mode_loop all_values Map.empty = Inr mode_values"
    using mode_loop_Inr by blast
  have res: "calculate_modes env input_data_array = Inr mode_values"
    by (simp add: calculate_modes_def c l)
  have d: "distinct (map fst all_values)"
    by (simp add: all_values_def comp_def mode_keys_eq)
  have "\<exists>m. mode_values key = Some m \<and> first_most_frequent (column key) m"
    if key: "key \<in> set mode_keys" for key
  proof -
    have "(key, column key) \<in> set all_values"
      using key by (auto simp: all_values_def)
    from mode_loop_lookup [OF l d this] obtain m where
      m: "most_common_value (column key) = Inr m" "mode_values key = Some m"
      by blast
    from ne have "column key \<noteq> []"
      by (simp add: column_def)
    from most_common_value_first_most_frequent [OF this] m
    have "first_most_frequent (column key) m"
      by auto
    with m show ?thesis by blast
  qed
  with res show ?thesis
    unfolding column_def by blast
qed

lemma float_item_JNum:
  "map_of items key = Some (JNum x) \<Longrightarrow> float_item env (JObj items) key = Inr x"
  by (simp add: float_item_def)

lemma float_item_JInt:
  "map_of items key = Some (JInt n) \<Longrightarrow> float_of_int env n = Some x \<Longrightarrow>
   float_item env (JObj items) key = Inr x"
  by (simp add: float_item_def)

lemma raw_features_mode_keys: "raw_features = mode_keys @ [''ultra_sound'']"
  by (simp add: raw_features_def mode_keys_eq)

lemma float_column:
  assumes "map (\<lambda>items. map_of items key) rows = map (\<lambda>x. Some (JNum x)) vals"
  shows "map (\<lambda>r. projr (float_item env r key)) (map JObj rows) = vals"
  using assms
proof (induction rows arbitrary: vals)
  case Nil
  then show ?case by simp
next
  case (Cons items rows)
  from Cons.prems obtain x xs where vals: "vals = x # xs"
    and x: "map_of items key = Some (JNum x)"
    and xs: "map (\<lambda>items. map_of items key) rows = map (\<lambda>x. Some (JNum x)) xs"
    by (cases vals) auto
  from Cons.IH [OF xs] float_item_JNum [OF x, of env] show ?case
    by (simp add: vals)
qed

text \<open>
  Claim C8 (evaluated on the code). Take a non-empty batch of readings that are
  dictionaries with a float for each of the ten raw features, and let \<open>vals\<close> be the values
  of one raw feature in batch order. The mode extractor returns. For each of the nine
  features other than \<^verbatim>\<open>ultra_sound\<close> the mode is the most frequent of \<open>vals\<close>, the first
  encountered in batch order among several most frequent ones. For \<^verbatim>\<open>ultra_sound\<close>
  the extractor returns no mode, whatever the values (the missing term of claim C2). The
  witness is the batch in which both \<^verbatim>\<open>temperature_one\<close> and \<^verbatim>\<open>ultra_sound\<close> have the
  values 1.0, 2.0, 1.0, 2.0: the mode of the former is 1.0, the latter has none.
\<close>

theorem mode_of_each_feature:
  assumes ne: "rows \<noteq> []"
    and numeric:
      "\<forall>items\<in>set rows. \<forall>k\<in>set raw_features. \<exists>x. map_of items k = Some (JNum x)"
    and key: "key \<in> set raw_features"
    and vals: "map (\<lambda>items. map_of items key) rows = map (\<lambda>x. Some (JNum x)) vals"
  shows "\<exists>mode_values. calculate_modes env (map JObj rows) = Inr mode_values \<and>
     (if key = ''ultra_sound'' then mode_values key = None
      else \<exists>m. mode_values key = Some m \<and> first_most_frequent vals m)"
proof -
  have readable: "\<forall>r\<in>set (map JObj rows). \<forall>k\<in>set mode_keys. \<exists>x. float_item env r k = Inr x"
  proof (intro ballI)
    fix r k
    assume "r \<in> set (map JObj rows)" and k: "k \<in> set mode_keys"
    then obtain items where r: "r = JObj items" and items: "items \<in> set rows"
      by auto
    from k have "k \<in> set raw_features"
      by (simp add: raw_features_mode_keys)
    with numeric items obtain x where "map_of items k = Some (JNum x)"
      by blast
    then show "\<exists>x. float_item env r k = Inr x"
      unfolding r by (auto dest: float_item_JNum)
  qed
  from ne have "map JObj rows \<noteq> []"
    by simp
  from calculate_modes_columns [OF this readable] obtain mode_values where
    res: "calculate_modes env (map JObj rows) = Inr mode_values"
    and modes: "\<forall>key\<in>set mode_keys. \<exists>m. mode_values key = Some m \<and>
        first_most_frequent (map (\<lambda>r. projr (float_item env r key)) (map JObj rows)) m"
    by blast
  show ?thesis
  proof (cases "key = ''ultra_sound''")
    case True
    from calculate_modes_dom [OF res] have "''ultra_sound'' \<notin> dom mode_values"
      by (simp add: mode_keys_eq)
    with True res show ?thesis by auto
  next
    case False
    with key have "key \<in> set mode_keys"
      by (simp add: raw_features_mode_keys)
    with modes obtain m where "mode_values key = Some m"
      and "first_most_frequent (map (\<lambda>r. projr (float_item env r key)) (map JObj rows)) m"
      by blast
    with float_column [OF vals, of env] False res show ?thesis
      by auto
  qed
qed

theorem mode_of_each_feature_witness:
  "\<exists>mode_values.
     calculate_modes example_env (map JObj (map tie_items [1, 2, 1, 2])) = Inr mode_values \<and>
     map (\<lambda>items. map_of items ''temperature_one'') (map tie_items [1, 2, 1, 2]) =
       map (\<lambda>x. Some (JNum x)) [1, 2, 1, 2] \<and>
     mode_values ''temperature_one'' = Some 1 \<and>
     map (\<lambda>items. map_of items ''ultra_sound'') (map tie_items [1, 2, 1, 2]) =
       map (\<lambda>x. Some (JNum x)) [1, 2, 1, 2] \<and>
     mode_values ''ultra_sound'' = None"
proof -
  let ?rows = "map tie_items [1, 2, 1, 2]"
  have ne: "?rows \<noteq> []"
    by simp
  have numeric:
    "\<forall>items\<in>set ?rows. \<forall>k\<in>set raw_features. \<exists>x. map_of items k = Some (JNum x)"
    by (auto simp: raw_features_def tie_items_def intro: exI [of _ "1 / 2"])
  have t: "map (\<lambda>items. map_of items ''temperature_one'') ?rows =
      map (\<lambda>x. Some (JNum x)) [1, 2, 1, 2]"
    by (simp add: tie_items_def)
  have u: "map (\<lambda>items. map_of items ''ultra_sound'') ?rows =
      map (\<lambda>x. Some (JNum x)) [1, 2, 1, 2]"
    by (simp add: tie_items_def)
  have kt: "''temperature_one'' \<in> set raw_features"
    and ku: "''ultra_sound'' \<in> set raw_features"
    by (simp_all add: raw_features_def)
  from mode_of_each_feature [OF ne numeric kt t, of example_env] obtain mode_values m where
    c: "calculate_modes example_env (map JObj ?rows) = Inr mode_values"
    and m: "mode_values ''temperature_one'' = Some m"
    and f: "first_most_frequent [1, 2, 1, 2] m"
    by auto
  have "first_most_frequent [1, 2, 1, 2] (1::real)"
    by (simp add: first_most_frequent_def)
  with f have "m = 1"
    by (rule first_most_frequent_unique)
  moreover from mode_of_each_feature [OF ne numeric ku u, of example_env] c
  have "mode_values ''ultra_sound'' = None"
    by auto
  ultimately show ?thesis
    using c m t u by blast
qed

text \<open>
  Ints are converted before they are counted: two ints with the same float count as one
  value. With Python's \<^verbatim>\<open>float\<close>, which maps both 9007199254740993 and 9007199254740992 to
  9007199254740992.0, the mode of 9007199254740993, 9007199254740992, 5, 5 is
  9007199254740992.0.
\<close>

lemma mode_of_large_ints:
  assumes a: "float_of_int env 9007199254740993 = Some 9007199254740992"
    and b: "float_of_int env 9007199254740992 = Some 9007199254740992"
    and c: "float_of_int env 5 = Some 5"
  shows "\<exists>mode_values.
     calculate_modes env
       (map JObj (map int_items [9007199254740993, 9007199254740992, 5, 5])) =
       Inr mode_values \<and>
     mode_values ''temperature_one'' = Some 9007199254740992"
proof -
  let ?batch = "map JObj (map int_items [9007199254740993, 9007199254740992, 5, 5])"
  have ne: "?batch \<noteq> []"
    by simp
  have readable: "\<forall>r\<in>set ?batch. \<forall>k\<in>set mode_keys. \<exists>x. float_item env r k = Inr x"
    using a b c
    by (auto simp: mode_keys_eq int_items_def float_item_def intro: exI [of _ "1 / 2"])
  have col: "map (\<lambda>r. projr (float_item env r ''temperature_one'')) ?batch =
      [9007199254740992, 9007199254740992, 5, 5]"
    using a b c by (simp add: int_items_def float_item_def)
  have k: "''temperature_one'' \<in> set mode_keys"
    by (simp add: mode_keys_eq)
  from calculate_modes_columns [OF ne readable] obtain mode_values where
    res: "calculate_modes env ?batch = Inr mode_values"
    and modes: "\<forall>key\<in>set mode_keys. \<exists>m. mode_values key = Some m \<and>
        first_most_frequent (map (\<lambda>r. projr (float_item env r key)) ?batch) m"
    by blast
  from modes k obtain m where m: "mode_values ''temperature_one'' = Some m"
    and "first_most_frequent
      (map (\<lambda>r. projr (float_item env r ''temperature_one'')) ?batch) m"
    by blast
  then have f: "first_most_frequent [9007199254740992, 9007199254740992, 5, 5] m"
    unfolding col by simp
  have "first_most_frequent [9007199254740992, 9007199254740992, 5, 5] (9007199254740992::real)"
    by (simp add: first_most_frequent_def)
  with f have "m = 9007199254740992"
    by (rule first_most_frequent_unique)
  with res m show ?thesis by blast
qed

subsection \<open>The batch aggregator\<close>

lemma strip_model_names:
  "map strip_model model_names =
     [''temperature'', ''vibration'', ''magnetic_flux'', ''audible_sound'', ''ultra_sound'']"
  by (simp add: model_names_def)

lemma model_predictions_Inr:
  "map (\<lambda>pred. pred key) predictions_list = map Some ps \<Longrightarrow>
   model_predictions key predictions_list = Inr ps"
  by (induction predictions_list arbitrary: ps) auto

lemma numbers_map_Num: "numbers (map Num xs) = xs"
  by (induction xs) auto

lemma list_all_is_number_map_Num: "list_all is_number (map Num xs)"
  by (induction xs) auto

lemma aggregate_values_numbers:
  "xs \<noteq> [] \<Longrightarrow>
   aggregate_values env (map Num xs) = Inr (Average (Finite (sum_list xs / real (length xs))))"
  by (simp add: aggregate_values_def list_all_is_number_map_Num numbers_map_Num np_mean_def)

lemma aggregate_values_most_common:
  assumes "\<not> list_all is_number ps"
  shows "\<exists>m. first_most_frequent ps m \<and>
     aggregate_values env ps = Inr (Most_common (py_str env m))"
proof -
  from assms have "ps \<noteq> []"
    by auto
  from most_common_value_first_most_frequent [OF this] assms show ?thesis
    by (auto simp: aggregate_values_def)
qed

lemma aggregate_values_Inr:
  assumes "ps \<noteq> []"
  shows "\<exists>a. aggregate_values env ps = Inr a"
proof (cases "list_all is_number ps")
  case True
  then show ?thesis by (simp add: aggregate_values_def)
next
  case False
  from aggregate_values_most_common [OF this] show ?thesis by blast
qed

lemma aggregate_loop_result:
  assumes "predictions_list \<noteq> []"
    and "\<forall>pred\<in>set predictions_list. \<forall>n\<in>set names. pred (strip_model n) \<noteq> None"
    and "distinct (map strip_model names)"
  shows "\<exists>aggregated'. aggregate_loop env predictions_list names aggregated = Inr aggregated' \<and>
     (\<forall>n\<in>set names. \<exists>a.
        aggregate_values env (map (\<lambda>pred. the (pred (strip_model n))) predictions_list) = Inr a \<and>
        aggregated' (strip_model n) = Some a) \<and>
     (\<forall>key. key \<notin> set (map strip_model names) \<longrightarrow> aggregated' key = aggregated key)"
  using assms(2,3)
proof (induction names arbitrary: aggregated)
  case Nil
  show ?case by simp
next
  case (Cons name names)
  let ?key = "strip_model name"
  let ?ps = "map (\<lambda>pred. the (pred ?key)) predictions_list"
  have "map (\<lambda>pred. pred ?key) predictions_list = map Some ?ps"
    using Cons.prems(1) by auto
  then have mp: "model_predictions ?key predictions_list = Inr ?ps"
    by (rule model_predictions_Inr)
  from assms(1) have "?ps \<noteq> []"
    by simp
  then obtain a where a: "aggregate_values env ?ps = Inr a"
    using aggregate_values_Inr by blast
  have "\<exists>aggregated'. aggregate_loop env predictions_list names (aggregated(?key \<mapsto> a)) =
      Inr aggregated' \<and>
     (\<forall>n\<in>set names. \<exists>a.
        aggregate_values env (map (\<lambda>pred. the (pred (strip_model n))) predictions_list) = Inr a \<and>
        aggregated' (strip_model n) = Some a) \<and>
     (\<forall>key. key \<notin> set (map strip_model names) \<longrightarrow>
        aggregated' key = (aggregated(?key \<mapsto> a)) key)"
    by (rule Cons.IH) (use Cons.prems in auto)
  then obtain aggregated' where
    l: "aggregate_loop env predictions_list names (aggregated(?key \<mapsto> a)) = Inr aggregated'"
    and names: "\<forall>n\<in>set names. \<exists>a.
        aggregate_values env (map (\<lambda>pred. the (pred (strip_model n))) predictions_list) = Inr a \<and>
        aggregated' (strip_model n) = Some a"
    and other: "\<forall>key. key \<notin> set (map strip_model names) \<longrightarrow>
        aggregated' key = (aggregated(?key \<mapsto> a)) key"
    by blast
  from Cons.prems(2) have "?key \<notin> set (map strip_model names)"
    by simp
  with other have here: "aggregated' ?key = Some a"
    by simp
  have res: "aggregate_loop env predictions_list (name # names) aggregated = Inr aggregated'"
    by (simp add: mp a l)
  from other have "\<forall>key. key \<notin> set (map strip_model (name # names)) \<longrightarrow>
      aggregated' key = aggregated key"
    by auto
  with res names here a show ?case
    by auto
qed

text \<open>
  Claim C7, as amended. For a non-empty sequence of prediction mappings that all carry
  every model's key, the aggregator returns; for every model, if all its predictions are
  numbers the aggregated value is their arithmetic mean, and otherwise it is the string
  representation of the most frequent prediction, the predictions compared as they are (a
  number and a string are never the same value), ties broken by first-seen order.
\<close>

theorem aggregate_mean_or_most_common:
  assumes ne: "predictions_list \<noteq> []"
    and present:
      "\<forall>pred\<in>set predictions_list. \<forall>n\<in>set model_names. pred (strip_model n) \<noteq> None"
    and name: "name \<in> set model_names"
    and ps: "map (\<lambda>pred. pred (strip_model name)) predictions_list = map Some ps"
  shows "\<exists>aggregated. aggregate_predictions env predictions_list = Inr aggregated \<and>
     (\<forall>xs. ps = map Num xs \<longrightarrow>
        aggregated (strip_model name) =
          Some (Average (Finite (sum_list xs / real (length xs))))) \<and>
     (\<not> list_all is_number ps \<longrightarrow>
        (\<exists>m. first_most_frequent ps m \<and>
           aggregated (strip_model name) = Some (Most_common (py_str env m))))"
proof -
  have d: "distinct (map strip_model model_names)"
    by (simp add: strip_model_names)
  from aggregate_loop_result [OF ne present d, of env Map.empty] name
  obtain aggregated a where
    res: "aggregate_predictions env predictions_list = Inr aggregated"
    and a: "aggregate_values env
        (map (\<lambda>pred. the (pred (strip_model name))) predictions_list) = Inr a"
    and here: "aggregated (strip_model name) = Some a"
    unfolding aggregate_predictions_def by blast
  have "map the (map (\<lambda>pred. pred (strip_model name)) predictions_list) = map the (map Some ps)"
    unfolding ps by (rule refl)
  then have "map (\<lambda>pred. the (pred (strip_model name))) predictions_list = ps"
    by (simp add: comp_def)
  with a have a': "aggregate_values env ps = Inr a"
    by simp
  from ne ps have pne: "ps \<noteq> []"
    by auto
  have mean: "aggregated (strip_model name) =
      Some (Average (Finite (sum_list xs / real (length xs))))" if "ps = map Num xs" for xs
  proof -
    from that pne have "xs \<noteq> []"
      by auto
    from aggregate_values_numbers [OF this, of env] a' that here show ?thesis
      by simp
  qed
  have mode: "\<exists>m. first_most_frequent ps m \<and>
      aggregated (strip_model name) = Some (Most_common (py_str env m))"
    if "\<not> list_all is_number ps"
    using aggregate_values_most_common [OF that, of env] a' here by auto
  from res mean mode show ?thesis by blast
qed

text \<open>
  The claim as stated coerces every value before counting. On the predictions
  \<^verbatim>\<open>'a', 1.0, '1.0'\<close> the code counts three distinct values and returns the first,
  \<^verbatim>\<open>'a'\<close>; counting the string representations gives \<^verbatim>\<open>'1.0'\<close> twice.
\<close>

theorem coerced_most_common_counterexample:
  "(case aggregate_predictions example_env mixed_predictions of
      Inl e \<Rightarrow> None
    | Inr aggregated \<Rightarrow> aggregated ''temperature'') = Some (Most_common ''a'') \<and>
   coerced_most_common example_env [Str ''a'', Num 1, Str ''1.0''] = Inr ''1.0''"
  by (simp add: aggregate_predictions_def model_names_def mixed_predictions_def
      aggregate_values_def coerced_most_common_def most_common_value_def most_common_1_def
      Counter_def example_env_def)

theorem aggregate_mean_or_most_common_witness:
  "(case aggregate_predictions example_env numeric_predictions of
      Inl e \<Rightarrow> None
    | Inr aggregated \<Rightarrow> aggregated ''temperature'') = Some (Average (Finite 3)) \<and>
   (case aggregate_predictions example_env mixed_predictions of
      Inl e \<Rightarrow> None
    | Inr aggregated \<Rightarrow> aggregated ''temperature'') = Some (Most_common ''a'')"
proof -
  have n: "''temperature_model'' \<in> set model_names"
    by (simp add: model_names_def)
  have k: "strip_model ''temperature_model'' = ''temperature''"
    by simp
  have "numeric_predictions \<noteq> []"
    and "\<forall>pred\<in>set numeric_predictions. \<forall>n\<in>set model_names. pred (strip_model n) \<noteq> None"
    and "map (\<lambda>pred. pred (strip_model ''temperature_model'')) numeric_predictions =
      map Some [Num 1, Num 2, Num 6]"
    by (simp_all add: numeric_predictions_def)
  from aggregate_mean_or_most_common [OF this(1,2) n this(3), of example_env]
  obtain aggregated where
    "aggregate_predictions example_env numeric_predictions = Inr aggregated"
    and "\<forall>xs. [Num 1, Num 2, Num 6] = map Num xs \<longrightarrow>
        aggregated ''temperature'' = Some (Average (Finite (sum_list xs / real (length xs))))"
    unfolding k by blast
  from this(1) this(2) [rule_format, of "[1, 2, 6]"]
  have a: "(case aggregate_predictions example_env numeric_predictions of
      Inl e \<Rightarrow> None
    | Inr aggregated \<Rightarrow> aggregated ''temperature'') = Some (Average (Finite 3))"
    by simp
  have "mixed_predictions \<noteq> []"
    and "\<forall>pred\<in>set mixed_predictions. \<forall>n\<in>set model_names. pred (strip_model n) \<noteq> None"
    and "map (\<lambda>pred. pred (strip_model ''temperature_model'')) mixed_predictions =
      map Some [Str ''a'', Num 1, Str ''1.0'']"
    by (simp_all add: mixed_predictions_def)
  from aggregate_mean_or_most_common [OF this(1,2) n this(3), of example_env]
  obtain aggregated m where
    r: "aggregate_predictions example_env mixed_predictions = Inr aggregated"
    and f: "first_most_frequent [Str ''a'', Num 1, Str ''1.0''] m"
    and v: "aggregated ''temperature'' = Some (Most_common (py_str example_env m))"
    unfolding k by auto
  have "first_most_frequent [Str ''a'', Num 1, Str ''1.0''] (Str ''a'')"
    by (simp add: first_most_frequent_def)
  with f have "m = Str ''a''"
    by (rule first_most_frequent_unique)
  with r v have b: "(case aggregate_predictions example_env mixed_predictions of
      Inl e \<Rightarrow> None
    | Inr aggregated \<Rightarrow> aggregated ''temperature'') = Some (Most_common ''a'')"
    by simp
  from a b show ?thesis by simp
qed

subsection \<open>The pipeline\<close>

lemma predict_single_model_key:
  "predict_single_model env name input_data = Inr (Prediction key p) \<Longrightarrow> key = strip_model name"
  by (auto simp: predict_single_model_def try_predict_def
      split: option.splits sum.splits model_call.splits model_output.splits if_splits)

lemma not_fails_iff:
  "\<not> fails env name input_data \<longleftrightarrow>
     strip_model name \<noteq> ''error'' \<and>
     (\<exists>p. predict_single_model env name input_data = Inr (Prediction (strip_model name) p))"
  by (auto simp: fails_def split: sum.splits single_result.splits
      dest: predict_single_model_key)

lemma collect_results_success:
  assumes "collect_results env input_data order preds = Inr (Inr preds')"
    and "distinct (map strip_model order)"
  shows "(\<forall>name\<in>set order. \<exists>p.
        predict_single_model env name input_data = Inr (Prediction (strip_model name) p) \<and>
        strip_model name \<noteq> ''error'' \<and> preds' (strip_model name) = Some p) \<and>
     (\<forall>key. key \<notin> set (map strip_model order) \<longrightarrow> preds' key = preds key)"
  using assms
proof (induction order arbitrary: preds)
  case Nil
  then show ?case by simp
next
  case (Cons name order)
  from Cons.prems(1) obtain key p where
    r: "predict_single_model env name input_data = Inr (Prediction key p)"
    and ne: "key \<noteq> ''error''"
    and c: "collect_results env input_data order (preds(key \<mapsto> p)) = Inr (Inr preds')"
    by (auto split: sum.splits single_result.splits if_splits)
  from r have key: "key = strip_model name"
    by (rule predict_single_model_key)
  from Cons.prems(2) have d: "distinct (map strip_model order)"
    and nk: "key \<notin> set (map strip_model order)"
    by (simp_all add: key)
  from Cons.IH [OF c d] have
    names: "\<forall>name\<in>set order. \<exists>p.
        predict_single_model env name input_data = Inr (Prediction (strip_model name) p) \<and>
        strip_model name \<noteq> ''error'' \<and> preds' (strip_model name) = Some p"
    and other: "\<forall>k. k \<notin> set (map strip_model order) \<longrightarrow> preds' k = (preds(key \<mapsto> p)) k"
    by blast+
  from other nk have "preds' key = Some p"
    by simp
  with r ne key names other show ?case
    by auto
qed

lemma collect_results_total:
  assumes "\<forall>name\<in>set order. \<not> fails env name input_data"
  shows "\<exists>preds'. collect_results env input_data order preds = Inr (Inr preds')"
  using assms
proof (induction order arbitrary: preds)
  case Nil
  show ?case by simp
next
  case (Cons name order)
  from Cons.prems obtain p where
    r: "predict_single_model env name input_data = Inr (Prediction (strip_model name) p)"
    and ne: "strip_model name \<noteq> ''error''"
    by (auto simp: not_fails_iff)
  have "\<exists>preds'. collect_results env input_data order (preds(strip_model name \<mapsto> p)) =
      Inr (Inr preds')"
    by (rule Cons.IH) (use Cons.prems in simp)
  with r ne show ?case by simp
qed

lemma collect_results_first_failure:
  assumes "\<forall>name\<in>set before. \<not> fails env name input_data"
    and "fails env name input_data"
  shows "collect_results env input_data (before @ name # after) preds =
     (case predict_single_model env name input_data of
        Inl e \<Rightarrow> Inl e
      | Inr result \<Rightarrow> Inr (Inl result))"
  using assms(1)
proof (induction before arbitrary: preds)
  case Nil
  from assms(2) show ?case
    by (auto simp: fails_def split: sum.splits single_result.splits)
next
  case (Cons b before)
  from Cons.prems obtain p where
    r: "predict_single_model env b input_data = Inr (Prediction (strip_model b) p)"
    and ne: "strip_model b \<noteq> ''error''"
    by (auto simp: not_fails_iff)
  have "collect_results env input_data (before @ name # after) (preds(strip_model b \<mapsto> p)) =
     (case predict_single_model env name input_data of
        Inl e \<Rightarrow> Inl e
      | Inr result \<Rightarrow> Inr (Inl result))"
    by (rule Cons.IH) (use Cons.prems in simp)
  with r ne show ?case by simp
qed

lemma valid_completion_order:
  assumes "valid_completion completion"
  shows "distinct (map strip_model (completion i))" and "set (completion i) = set model_names"
proof -
  from assms have d: "distinct (completion i)" and s: "set (completion i) = set model_names"
    by (simp_all add: valid_completion_def)
  have "distinct (map strip_model model_names)"
    by (simp add: strip_model_names)
  then have "inj_on strip_model (set model_names)"
    by (simp add: distinct_map)
  with d s show "distinct (map strip_model (completion i))"
    by (simp add: distinct_map)
  from s show "set (completion i) = set model_names" .
qed

lemma fulfilled_iff:
  "fulfilled env input_data preds \<longleftrightarrow>
     (\<forall>name\<in>set model_names. \<exists>p.
        predict_single_model env name input_data = Inr (Prediction (strip_model name) p) \<and>
        strip_model name \<noteq> ''error'' \<and> preds (strip_model name) = Some p)"
proof -
  have "(case predict_single_model env name input_data of
          Inr (Prediction key p) \<Rightarrow>
            key = strip_model name \<and> key \<noteq> ''error'' \<and> preds key = Some p
        | _ \<Rightarrow> False) \<longleftrightarrow>
      (\<exists>p. predict_single_model env name input_data = Inr (Prediction (strip_model name) p) \<and>
        strip_model name \<noteq> ''error'' \<and> preds (strip_model name) = Some p)" for name
    by (auto split: sum.splits single_result.splits)
  then show ?thesis
    unfolding fulfilled_def list_all_iff by simp
qed

lemma collect_results_fulfilled:
  assumes "valid_completion completion"
    and "collect_results env input_data (completion i) Map.empty = Inr (Inr preds)"
  shows "fulfilled env input_data preds"
proof -
  from collect_results_success [OF assms(2) valid_completion_order(1) [OF assms(1)]]
  have "\<forall>name\<in>set model_names. \<exists>p.
        predict_single_model env name input_data = Inr (Prediction (strip_model name) p) \<and>
        strip_model name \<noteq> ''error'' \<and> preds (strip_model name) = Some p"
    unfolding valid_completion_order(2) [OF assms(1)] by blast
  then show ?thesis
    by (simp add: fulfilled_iff)
qed

lemma fulfilled_not_fails:
  assumes "fulfilled env input_data preds" and "name \<in> set model_names"
  shows "\<not> fails env name input_data"
  using assms by (auto simp: fulfilled_iff not_fails_iff)

lemma fulfilled_agree:
  assumes "fulfilled env input_data preds" and "fulfilled env input_data preds'"
    and "name \<in> set model_names"
  shows "preds (strip_model name) = preds' (strip_model name)"
proof -
  from assms(1,3) obtain p where
    p: "predict_single_model env name input_data = Inr (Prediction (strip_model name) p)"
    "preds (strip_model name) = Some p"
    unfolding fulfilled_iff by blast
  from assms(2,3) obtain p' where
    p': "predict_single_model env name input_data = Inr (Prediction (strip_model name) p')"
    "preds' (strip_model name) = Some p'"
    unfolding fulfilled_iff by blast
  from p p' show ?thesis by simp
qed

lemma fulfilled_lists_agree:
  assumes "list_all2 (fulfilled env) batch ps" and "list_all2 (fulfilled env) batch ps'"
    and "name \<in> set model_names"
  shows "map (\<lambda>pred. pred (strip_model name)) ps = map (\<lambda>pred. pred (strip_model name)) ps'"
  using assms(1,2)
proof (induction batch arbitrary: ps ps')
  case Nil
  then show ?case by simp
next
  case (Cons r batch)
  from Cons.prems(1) obtain q qs where
    ps: "ps = q # qs" and q: "fulfilled env r q" and qs: "list_all2 (fulfilled env) batch qs"
    by (auto simp: list_all2_Cons1)
  from Cons.prems(2) obtain q' qs' where
    ps': "ps' = q' # qs'" and q': "fulfilled env r q'"
    and qs': "list_all2 (fulfilled env) batch qs'"
    by (auto simp: list_all2_Cons1)
  from fulfilled_agree [OF q q' assms(3)] Cons.IH [OF qs qs'] show ?case
    by (simp add: ps ps')
qed

lemma fan_out_success:
  assumes "valid_completion completion"
    and "fan_out env completion i batch all_predictions = Inr (Inr result)"
  shows "\<exists>ps. result = all_predictions @ ps \<and> list_all2 (fulfilled env) batch ps"
  using assms(2)
proof (induction batch arbitrary: i all_predictions)
  case Nil
  then show ?case by simp
next
  case (Cons r batch)
  from Cons.prems obtain preds where
    c: "collect_results env r (completion i) Map.empty = Inr (Inr preds)"
    and f: "fan_out env completion (Suc i) batch (all_predictions @ [preds]) = Inr (Inr result)"
    by (auto split: sum.splits)
  from collect_results_fulfilled [OF assms(1) c] have q: "fulfilled env r preds" .
  from Cons.IH [OF f] obtain ps where
    "result = (all_predictions @ [preds]) @ ps" "list_all2 (fulfilled env) batch ps"
    by blast
  with q have "result = all_predictions @ (preds # ps) \<and>
      list_all2 (fulfilled env) (r # batch) (preds # ps)"
    by simp
  then show ?case by blast
qed

lemma fan_out_total:
  assumes "valid_completion completion"
    and "\<forall>r\<in>set batch. \<forall>name\<in>set model_names. \<not> fails env name r"
  shows "\<exists>result. fan_out env completion i batch all_predictions = Inr (Inr result)"
  using assms(2)
proof (induction batch arbitrary: i all_predictions)
  case Nil
  show ?case by simp
next
  case (Cons r batch)
  from Cons.prems have "\<forall>name\<in>set (completion i). \<not> fails env name r"
    by (simp add: valid_completion_order(2) [OF assms(1)])
  from collect_results_total [OF this] obtain preds where
    c: "collect_results env r (completion i) Map.empty = Inr (Inr preds)"
    by blast
  have "\<exists>result. fan_out env completion (Suc i) batch (all_predictions @ [preds]) =
      Inr (Inr result)"
    by (rule Cons.IH) (use Cons.prems in simp)
  with c show ?case by simp
qed

lemma fan_out_first_failure:
  assumes "valid_completion completion"
    and "\<forall>r\<in>set before. \<forall>name\<in>set model_names. \<not> fails env name r"
    and "completion (i + length before) = pre @ name # post"
    and "\<forall>b\<in>set pre. \<not> fails env b input_data"
    and "fails env name input_data"
  shows "fan_out env completion i (before @ input_data # after) all_predictions =
     (case predict_single_model env name input_data of
        Inl e \<Rightarrow> Inl e
      | Inr result \<Rightarrow> Inr (Inl result))"
  using assms(2,3)
proof (induction before arbitrary: i all_predictions)
  case Nil
  from Nil.prems(2) have "completion i = pre @ name # post"
    by simp
  with collect_results_first_failure [OF assms(4,5), of post Map.empty] show ?case
    by (simp split: sum.splits)
next
  case (Cons r before)
  from Cons.prems(1) have "\<forall>name\<in>set (completion i). \<not> fails env name r"
    by (simp add: valid_completion_order(2) [OF assms(1)])
  from collect_results_total [OF this] obtain preds where
    c: "collect_results env r (completion i) Map.empty = Inr (Inr preds)"
    by blast
  have "fan_out env completion (Suc i) (before @ input_data # after) (all_predictions @ [preds]) =
     (case predict_single_model env name input_data of
        Inl e \<Rightarrow> Inl e
      | Inr result \<Rightarrow> Inr (Inl result))"
    by (rule Cons.IH) (use Cons.prems in simp_all)
  with c show ?case by simp
qed

lemma model_predictions_cong:
  "map (\<lambda>pred. pred key) ps = map (\<lambda>pred. pred key) ps' \<Longrightarrow>
   model_predictions key ps = model_predictions key ps'"
proof (induction ps arbitrary: ps')
  case Nil
  then show ?case by simp
next
  case (Cons q ps)
  then obtain q' qs' where "ps' = q' # qs'" "q key = q' key"
    "map (\<lambda>pred. pred key) ps = map (\<lambda>pred. pred key) qs'"
    by (cases ps') auto
  with Cons.IH [of qs'] show ?case by (simp split: option.splits)
qed

lemma aggregate_loop_cong:
  assumes "\<forall>name\<in>set names.
      map (\<lambda>pred. pred (strip_model name)) ps = map (\<lambda>pred. pred (strip_model name)) ps'"
  shows "aggregate_loop env ps names aggregated = aggregate_loop env ps' names aggregated"
  using assms
proof (induction names arbitrary: aggregated)
  case Nil
  show ?case by simp
next
  case (Cons name names)
  from Cons.prems have
    "model_predictions (strip_model name) ps = model_predictions (strip_model name) ps'"
    by (intro model_predictions_cong) simp
  moreover have "aggregate_loop env ps names a = aggregate_loop env ps' names a" for a
    by (rule Cons.IH) (use Cons.prems in simp)
  ultimately show ?case
    by (simp split: sum.splits)
qed

lemma analyze_health_clock:
  assumes "analyze_health env now m = Inr r"
  shows "analyze_health env now' m = Inr (r\<lparr>timestamp := now'\<rparr>)"
proof -
  from assms obtain t1 t2 vx vy vz where m: "m ''temperature_one'' = Some t1"
    "m ''temperature_two'' = Some t2" "m ''vibration_x'' = Some vx"
    "m ''vibration_y'' = Some vy" "m ''vibration_z'' = Some vz"
    by (rule analyze_health_InrD)
  from analyze_health_Inr [OF m refl refl, of env now] assms
    analyze_health_Inr [OF m refl refl, of env now']
  show ?thesis by simp
qed

lemma valid_completion_model_names: "valid_completion (\<lambda>i. model_names)"
  by (simp add: valid_completion_def model_names_def)

lemma valid_completion_rev: "valid_completion (\<lambda>i. rev model_names)"
  by (simp add: valid_completion_def) (simp add: model_names_def)

lemma fails_example:
  "fails example_env ''vibration_model'' reading_without_vibration_x"
  by (simp add: fails_def predict_single_model_def feature_sets_def try_predict_def
      float_item_def reading_without_vibration_x_def)

lemma full_result_example:
  "\<exists>result. predict_from_models example_env (\<lambda>i. model_names) ''2024-01-01''
     [example_reading] = Inr (Full_result result)"
  by (simp add: predict_from_models_def model_names_def predict_single_model_def
      feature_sets_def try_predict_def float_item_def example_env_def
      example_reading_def aggregate_predictions_def aggregate_values_def np_mean_def
      calculate_modes_def mode_keys_def most_common_value_def most_common_1_def Counter_def
      analyze_health_def mode_item_def)

text \<open>
  Claim C3. In every batch in which some invocation fails, let \<open>input_data\<close> be the first
  reading with a failing invocation and \<open>name\<close> the first failing model in the order in
  which the futures of that reading complete. The pipeline ends with the failure of that
  one invocation and nothing else: it raises what the invocation raised, or returns the
  error dictionary of the invocation. The readings after \<open>input_data\<close> are not processed:
  whatever follows it in the batch, the outcome is the same. The outcome is never the
  dictionary of predictions, modes and analysis.
\<close>

theorem first_failure_is_the_outcome:
  assumes "valid_completion completion"
    and "\<exists>r\<in>set input_data_array. \<exists>name\<in>set model_names. fails env name r"
  shows "\<exists>before input_data after pre name post.
      input_data_array = before @ input_data # after \<and>
      (\<forall>r\<in>set before. \<forall>name\<in>set model_names. \<not> fails env name r) \<and>
      completion (length before) = pre @ name # post \<and>
      (\<forall>b\<in>set pre. \<not> fails env b input_data) \<and>
      fails env name input_data \<and>
      (\<forall>after'. predict_from_models env completion now (before @ input_data # after') =
         (case predict_single_model env name input_data of
            Inl e \<Rightarrow> Inl e
          | Inr result \<Rightarrow> Inr (Error_result result))) \<and>
      (\<forall>after' full.
         predict_from_models env completion now (before @ input_data # after') \<noteq>
         Inr (Full_result full))"
proof -
  from split_list_first_prop [OF assms(2)] obtain before input_data after where
    batch: "input_data_array = before @ input_data # after"
    and r: "\<exists>name\<in>set model_names. fails env name input_data"
    and before: "\<forall>r\<in>set before. \<not> (\<exists>name\<in>set model_names. fails env name r)"
    by blast
  from before have before': "\<forall>r\<in>set before. \<forall>name\<in>set model_names. \<not> fails env name r"
    by blast
  from r have "\<exists>name\<in>set (completion (length before)). fails env name input_data"
    by (simp add: valid_completion_order(2) [OF assms(1)])
  from split_list_first_prop [OF this] obtain pre name post where
    order: "completion (length before) = pre @ name # post"
    and name: "fails env name input_data"
    and pre: "\<forall>b\<in>set pre. \<not> fails env b input_data"
    by blast
  have res: "predict_from_models env completion now (before @ input_data # after') =
         (case predict_single_model env name input_data of
            Inl e \<Rightarrow> Inl e
          | Inr result \<Rightarrow> Inr (Error_result result))" for after'
  proof -
    from order have "completion (0 + length before) = pre @ name # post"
      by simp
    from fan_out_first_failure [OF assms(1) before' this pre name, of after' "[]"]
    show ?thesis
      by (simp add: predict_from_models_def split: sum.splits)
  qed
  have "predict_from_models env completion now (before @ input_data # after') \<noteq>
         Inr (Full_result full)" for after' full
    unfolding res by (simp split: sum.splits)
  with batch before' order pre name res show ?thesis
    by blast
qed

theorem first_failure_is_the_outcome_witness:
  "valid_completion (\<lambda>i. model_names) \<and>
   (\<exists>r\<in>set [example_reading, reading_without_vibration_x, JNull].
      \<exists>name\<in>set model_names. fails example_env name r) \<and>
   (\<exists>before input_data after pre name post.
      [example_reading, reading_without_vibration_x, JNull] = before @ input_data # after \<and>
      (\<forall>r\<in>set before. \<forall>name\<in>set model_names. \<not> fails example_env name r) \<and>
      (\<lambda>i. model_names) (length before) = pre @ name # post \<and>
      (\<forall>b\<in>set pre. \<not> fails example_env b input_data) \<and>
      fails example_env name input_data \<and>
      (\<forall>after'. predict_from_models example_env (\<lambda>i. model_names) ''2024-01-01''
           (before @ input_data # after') =
         (case predict_single_model example_env name input_data of
            Inl e \<Rightarrow> Inl e
          | Inr result \<Rightarrow> Inr (Error_result result))) \<and>
      (\<forall>after' full.
         predict_from_models example_env (\<lambda>i. model_names) ''2024-01-01''
           (before @ input_data # after') \<noteq>
         Inr (Full_result full)))"
proof -
  have h: "\<exists>r\<in>set [example_reading, reading_without_vibration_x, JNull].
      \<exists>name\<in>set model_names. fails example_env name r"
    using fails_example by (simp add: model_names_def)
  from first_failure_is_the_outcome [OF valid_completion_model_names h, of "''2024-01-01''"]
    valid_completion_model_names h
  show ?thesis by blast
qed

text \<open>
  On a batch whose second reading lacks \<^verbatim>\<open>vibration_x\<close> the pipeline raises the
  \<open>KeyError\<close> of that reading; the third reading, which is no dictionary, is not looked at.
\<close>

lemma early_exit_example:
  "predict_from_models example_env (\<lambda>i. model_names) now
     [example_reading, reading_without_vibration_x, JNull] = Inl (KeyError ''vibration_x'')"
  by (simp add: predict_from_models_def model_names_def predict_single_model_def
      feature_sets_def try_predict_def float_item_def example_env_def
      reading_without_vibration_x_def example_reading_def)

text \<open>
  When several invocations for the same reading fail, the one that completes first is
  reported.
\<close>

lemma reported_error_follows_completion:
  "predict_from_models example_env (\<lambda>i. model_names) now [reading_with_text] =
     Inr (Error_result (Invalid_input ''vibration_model'' ValueError))"
  "predict_from_models example_env (\<lambda>i. rev model_names) now [reading_with_text] =
     Inr (Error_result (Invalid_input ''ultra_sound_model'' ValueError))"
  by (simp_all add: predict_from_models_def model_names_def predict_single_model_def
      feature_sets_def try_predict_def float_item_def example_env_def
      reading_with_text_def)

text \<open>
  Claim C9. For a fixed batch and fixed models (the environment \<open>env\<close>), two runs of the
  pipeline differ only in the order in which the futures complete and in the clock. If one
  run returns the dictionary of the results, so does the other, with the same predictions
  and the same modes; the analysis differs in the timestamp only.
\<close>

theorem same_predictions_and_modes:
  assumes "valid_completion completion" and "valid_completion completion'"
    and "predict_from_models env completion now input_data_array = Inr (Full_result result)"
  shows "\<exists>result'.
      predict_from_models env completion' now' input_data_array = Inr (Full_result result') \<and>
      predictions result' = predictions result \<and>
      modes result' = modes result \<and>
      Analysis_summary result' = (Analysis_summary result)\<lparr>timestamp := now'\<rparr>"
proof -
  from assms(3) obtain all_predictions aggregated_predictions modes' analysis_summary where
    f: "fan_out env completion 0 input_data_array [] = Inr (Inr all_predictions)"
    and a: "aggregate_predictions env all_predictions = Inr aggregated_predictions"
    and m: "calculate_modes env input_data_array = Inr modes'"
    and h: "analyze_health env now modes' = Inr analysis_summary"
    and result: "result = \<lparr> predictions = aggregated_predictions, modes = modes',
        Analysis_summary = analysis_summary \<rparr>"
    by (auto simp: predict_from_models_def split: sum.splits)
  from fan_out_success [OF assms(1) f] have
    ps: "list_all2 (fulfilled env) input_data_array all_predictions"
    by simp
  have ok: "\<forall>r\<in>set input_data_array. \<forall>name\<in>set model_names. \<not> fails env name r"
  proof (intro ballI)
    fix r name
    assume "r \<in> set input_data_array" and name: "name \<in> set model_names"
    with ps obtain preds where "fulfilled env r preds"
      by (auto simp: list_all2_conv_all_nth in_set_conv_nth)
    then show "\<not> fails env name r"
      using name by (rule fulfilled_not_fails)
  qed
  from fan_out_total [OF assms(2) ok, of 0 "[]"] obtain all_predictions' where
    f': "fan_out env completion' 0 input_data_array [] = Inr (Inr all_predictions')"
    by blast
  from fan_out_success [OF assms(2) f'] have
    ps': "list_all2 (fulfilled env) input_data_array all_predictions'"
    by simp
  have "aggregate_predictions env all_predictions' = aggregate_predictions env all_predictions"
    unfolding aggregate_predictions_def
    by (rule aggregate_loop_cong) (use fulfilled_lists_agree [OF ps' ps] in blast)
  with a have a': "aggregate_predictions env all_predictions' = Inr aggregated_predictions"
    by simp
  from h have h':
    "analyze_health env now' modes' = Inr (analysis_summary\<lparr>timestamp := now'\<rparr>)"
    by (rule analyze_health_clock)
  from f' a' m h' have
    "predict_from_models env completion' now' input_data_array =
       Inr (Full_result \<lparr> predictions = aggregated_predictions, modes = modes',
         Analysis_summary = analysis_summary\<lparr>timestamp := now'\<rparr> \<rparr>)"
    by (simp add: predict_from_models_def)
  with result show ?thesis
    by simp
qed

theorem same_predictions_and_modes_witness:
  "valid_completion (\<lambda>i. model_names) \<and> valid_completion (\<lambda>i. rev model_names) \<and>
   (\<exists>result result'.
      predict_from_models example_env (\<lambda>i. model_names) ''2024-01-01'' [example_reading] =
        Inr (Full_result result) \<and>
      predict_from_models example_env (\<lambda>i. rev model_names) ''2024-01-02'' [example_reading] =
        Inr (Full_result result') \<and>
      predictions result' = predictions result \<and>
      modes result' = modes result \<and>
      Analysis_summary result' = (Analysis_summary result)\<lparr>timestamp := ''2024-01-02''\<rparr>)"
proof -
  from full_result_example obtain result where
    r: "predict_from_models example_env (\<lambda>i. model_names) ''2024-01-01'' [example_reading] =
        Inr (Full_result result)"
    by blast
  from same_predictions_and_modes [OF valid_completion_model_names valid_completion_rev r,
      of "''2024-01-02''"]
    valid_completion_model_names valid_completion_rev r
  show ?thesis by blast
qed

end
